theory Spec2Isabelle
  imports Complex_Main
begin

section \<open>Data model of the in-memory data store\<close>

text \<open>
  The store of \<^verbatim>\<open>SDK/simData/MemoryDataStore.cpp\<close>. Object ids key the seven
  entity containers; a container (\<^verbatim>\<open>std::map\<close> from id to entry pointer) is an
  association list, \<^verbatim>\<open>find\<close> is \<open>map_of\<close> and \<^verbatim>\<open>erase\<close> drops the key.
  The times that the store compares or writes are \<open>Double\<close> values, below; the times of
  commands and of sparse data points, which only the slices read, are reals.
  Member names lose the trailing underscore of the source (\<^verbatim>\<open>platforms_\<close> is
  \<open>platforms\<close>).
\<close>

type_synonym ObjectId = nat
type_synonym ListenerId = nat

text \<open>
  A \<^verbatim>\<open>double\<close>: a number or NaN (rounding and the infinities, which compare like
  numbers, are left out). \<^verbatim>\<open>==\<close>, \<^verbatim>\<open><\<close> and \<^verbatim>\<open><=\<close> are false when a side is NaN; \<^verbatim>\<open>!=\<close>
  and \<^verbatim>\<open>>\<close> are the negated \<^verbatim>\<open>==\<close> and the swapped \<^verbatim>\<open><\<close>.
\<close>

datatype Double = Num real | NaN

fun doubleEq :: "Double \<Rightarrow> Double \<Rightarrow> bool" where
  "doubleEq (Num a) (Num b) = (a = b)"
| "doubleEq a b = False"

fun doubleLess :: "Double \<Rightarrow> Double \<Rightarrow> bool" where
  "doubleLess (Num a) (Num b) = (a < b)"
| "doubleLess a b = False"

fun doubleLessEq :: "Double \<Rightarrow> Double \<Rightarrow> bool" where
  "doubleLessEq (Num a) (Num b) = (a \<le> b)"
| "doubleLessEq a b = False"

text \<open>The object types; \<open>ALL_TYPES\<close> is \<^verbatim>\<open>simData::ALL\<close>.\<close>

datatype ObjectType =
  NONE | PLATFORM | BEAM | GATE | LASER | PROJECTOR | LOB_GROUP | CUSTOM_RENDERING | ALL_TYPES

text \<open>The type field of beam and gate properties; only \<open>TARGET\<close> is tested by the store.\<close>

datatype EntityKind = ABSOLUTE_POSITION | BODY_RELATIVE | TARGET

text \<open>
  The generated sample messages (platform, beam, gate, ... updates) are not part of the
  sources at hand; one record carries the fields the store reads or writes.
  \<open>position = None\<close> is \<^verbatim>\<open>!has_position()\<close>, \<open>centroid = None\<close> is
  \<^verbatim>\<open>!has_centroid()\<close>.
\<close>

record Update =
  utime :: Double
  position :: "(real \<times> real \<times> real) option"
  azimuth :: real
  elevation :: real
  rangeVal :: real
  minrange :: real
  maxrange :: real
  centroid :: "real option"
  height :: real
  width :: real

definition emptyUpdate :: Update where
  "emptyUpdate = \<lparr>utime = Num 0, position = None, azimuth = 0, elevation = 0, rangeVal = 0,
     minrange = 0, maxrange = 0, centroid = None, height = 0, width = 0\<rparr>"

text \<open>
  An update slice: the stored samples ordered by time, the current sample
  (\<open>None\<close> is the null pointer), the slot \<^verbatim>\<open>currentInterpolated()\<close> and the changed flag.
\<close>

record Slice =
  items :: "Update list"
  current :: "Update option"
  currentInterpolated :: Update
  changed :: bool

definition emptySlice :: Slice where
  "emptySlice = \<lparr>items = [], current = None, currentInterpolated = emptyUpdate, changed = False\<rparr>"

record CommonPrefs =
  name :: string
  aliasName :: string
  usealias :: bool
  datadraw :: bool
  datalimitpoints :: nat
  datalimittime :: real

text \<open>
  Preferences of any entity kind: the common preferences and the kind-specific fields
  the store reads (\<open>interpolate\<close> stands for \<^verbatim>\<open>interpolatepos\<close>,
  \<^verbatim>\<open>interpolatebeampos\<close>, \<^verbatim>\<open>interpolategatepos\<close> and
  \<^verbatim>\<open>interpolateprojectorfov\<close>; \<open>targetid = None\<close> is \<^verbatim>\<open>!has_targetid()\<close>).
\<close>

record Prefs =
  commonprefs :: CommonPrefs
  interpolate :: bool
  targetid :: "ObjectId option"
  maxdatapoints :: nat
  maxdataseconds :: real

record Properties =
  pid :: ObjectId
  hostid :: "ObjectId option"
  ptype :: EntityKind
  originalid :: nat

text \<open>\<^verbatim>\<open>hostid()\<close> of an unset field is the protobuf default 0.\<close>

definition hostidValue :: "Properties \<Rightarrow> ObjectId" where
  "hostidValue p = (case hostid p of None \<Rightarrow> 0 | Some h \<Rightarrow> h)"

text \<open>A command: its time and the preferences it carries.\<close>

record Command =
  ctime :: real
  updateprefs :: Prefs

record Entry =
  properties :: Properties
  preferences :: Prefs
  updates :: Slice
  commands :: "Command list"

type_synonym Container = "(ObjectId \<times> Entry) list"

text \<open>Generic data, category data and data-table rows: timed opaque values.\<close>

type_synonym SparseSlice = "(real \<times> nat) list"
type_synonym DataTable = "(real \<times> nat) list"

datatype Event =
  OnAddEntity ObjectId ObjectType
  | OnRemoveEntity ObjectId ObjectType
  | OnPostRemoveEntity ObjectId ObjectType
  | OnPropertiesChange ObjectId
  | OnPrefsChange ObjectId
  | OnNameChange ObjectId
  | OnCategoryDataChange ObjectId ObjectType
  | OnFlush ObjectId
  | OnChange

text \<open>Calls received by the new-updates listener.\<close>

datatype NewUpdatesEvent = NUEntityUpdate ObjectId Double | NUFlush ObjectId

text \<open>The fields of the scenario properties that the store reads.\<close>

record ScenarioProperties =
  scenarioDatalimitpoints :: nat
  scenarioDatalimittime :: real
  ignoreduplicategenericdata :: bool

text \<open>
  The store. \<open>boundClock = None\<close> is no bound clock, \<open>Some live\<close> a clock whose
  \<^verbatim>\<open>isLiveMode()\<close> is \<open>live\<close>; \<open>interpolator\<close> is the interpolator pointer.
  \<open>trace\<close> and \<open>newUpdatesTrace\<close> record every listener callback made, in order.
\<close>

record Store =
  baseId :: ObjectId
  scenarioProperties :: ScenarioProperties
  lastUpdateTime :: Double
  hasChanged :: bool
  interpolationEnabled :: bool
  interpolator :: "nat option"
  dataLimiting :: bool
  boundClock :: "bool option"
  platforms :: Container
  beams :: Container
  gates :: Container
  lasers :: Container
  projectors :: Container
  lobGroups :: Container
  customRenderings :: Container
  genericData :: "(ObjectId \<times> SparseSlice) list"
  categoryData :: "(ObjectId \<times> SparseSlice) list"
  dataTables :: "(ObjectId \<times> DataTable list) list"
  entityNameCache :: "(string \<times> ObjectId \<times> ObjectType) list"
  defaultPlatformPrefs :: Prefs
  defaultBeamPrefs :: Prefs
  defaultGatePrefs :: Prefs
  defaultLaserPrefs :: Prefs
  defaultLobGroupPrefs :: Prefs
  defaultProjectorPrefs :: Prefs
  defaultCustomRenderingPrefs :: Prefs
  listeners :: "ListenerId list"
  justRemoved :: "ListenerId list"
  trace :: "(ListenerId \<times> Event) list"
  newUpdatesTrace :: "NewUpdatesEvent list"

text \<open>
  What lies outside the file: the listeners' callbacks (any function on the store),
  the command slices' \<^verbatim>\<open>update(store, id, time)\<close>, which acts on the entry's
  commands and preferences, the update slices' \<^verbatim>\<open>update(time)\<close> and
  \<^verbatim>\<open>update(time, interpolator)\<close>, the sparse slices' \<^verbatim>\<open>update(time)\<close> (category
  data reports whether it changed), \<^verbatim>\<open>limitByPrefs\<close>, \<^verbatim>\<open>firstTime()\<close> and
  \<^verbatim>\<open>lastTime()\<close>, and the lob group slices' update under the limits
  \<^verbatim>\<open>setMaxDataPoints\<close> and \<^verbatim>\<open>setMaxDataSeconds\<close>, and the generic data slices' insert
  with its ignore-duplicates flag. \<open>debugBuild\<close> tells whether
  \<^verbatim>\<open>assert\<close> is compiled in.
\<close>

record Ext =
  callback :: "ListenerId \<Rightarrow> Event \<Rightarrow> Store \<Rightarrow> Store"
  commandsUpdate :: "ObjectId \<Rightarrow> Double \<Rightarrow> Command list \<Rightarrow> Prefs \<Rightarrow> Command list \<times> Prefs"
  sliceUpdate :: "Double \<Rightarrow> Slice \<Rightarrow> Slice"
  sliceUpdateInterp :: "Double \<Rightarrow> Slice \<Rightarrow> Slice"
  genericUpdate :: "Double \<Rightarrow> SparseSlice \<Rightarrow> SparseSlice"
  categoryUpdate :: "Double \<Rightarrow> SparseSlice \<Rightarrow> SparseSlice \<times> bool"
  sliceLimit :: "CommonPrefs \<Rightarrow> Slice \<Rightarrow> Slice"
  commandsLimit :: "CommonPrefs \<Rightarrow> Command list \<Rightarrow> Command list"
  sparseLimit :: "CommonPrefs \<Rightarrow> SparseSlice \<Rightarrow> SparseSlice"
  firstTime :: "Slice \<Rightarrow> Double"
  lastTime :: "Slice \<Rightarrow> Double"
  lobUpdate :: "nat \<Rightarrow> real \<Rightarrow> Double \<Rightarrow> Slice \<Rightarrow> Slice"
  genericInsert :: "bool \<Rightarrow> real \<times> nat \<Rightarrow> SparseSlice \<Rightarrow> SparseSlice"
  debugBuild :: bool

section \<open>Containers and queries\<close>

definition eraseKey :: "ObjectId \<Rightarrow> (ObjectId \<times> 'a) list \<Rightarrow> (ObjectId \<times> 'a) list" where
  "eraseKey k m = filter (\<lambda>p. fst p \<noteq> k) m"

definition hasKey :: "(ObjectId \<times> 'a) list \<Rightarrow> ObjectId \<Rightarrow> bool" where
  "hasKey m k = (map_of m k \<noteq> None)"

text \<open>\<^verbatim>\<open>objectType\<close>: the first container, in the source's order, that holds the id.\<close>

definition objectType :: "Store \<Rightarrow> ObjectId \<Rightarrow> ObjectType" where
  "objectType s i =
     (if hasKey (platforms s) i then PLATFORM
      else if hasKey (beams s) i then BEAM
      else if hasKey (gates s) i then GATE
      else if hasKey (lasers s) i then LASER
      else if hasKey (projectors s) i then PROJECTOR
      else if hasKey (lobGroups s) i then LOB_GROUP
      else if hasKey (customRenderings s) i then CUSTOM_RENDERING
      else NONE)"

text \<open>The \<^verbatim>\<open>...IdListForHost\<close> loops: keys of the entries whose \<^verbatim>\<open>hostid()\<close> is the host.\<close>

definition idListForHost :: "Container \<Rightarrow> ObjectId \<Rightarrow> ObjectId list" where
  "idListForHost c h = map fst (filter (\<lambda>p. hostidValue (properties (snd p)) = h) c)"

definition beamIdListForHost :: "Store \<Rightarrow> ObjectId \<Rightarrow> ObjectId list" where
  "beamIdListForHost s h = idListForHost (beams s) h"

definition gateIdListForHost :: "Store \<Rightarrow> ObjectId \<Rightarrow> ObjectId list" where
  "gateIdListForHost s h = idListForHost (gates s) h"

definition laserIdListForHost :: "Store \<Rightarrow> ObjectId \<Rightarrow> ObjectId list" where
  "laserIdListForHost s h = idListForHost (lasers s) h"

definition projectorIdListForHost :: "Store \<Rightarrow> ObjectId \<Rightarrow> ObjectId list" where
  "projectorIdListForHost s h = idListForHost (projectors s) h"

definition lobGroupIdListForHost :: "Store \<Rightarrow> ObjectId \<Rightarrow> ObjectId list" where
  "lobGroupIdListForHost s h = idListForHost (lobGroups s) h"

definition customRenderingIdListForHost :: "Store \<Rightarrow> ObjectId \<Rightarrow> ObjectId list" where
  "customRenderingIdListForHost s h = idListForHost (customRenderings s) h"

text \<open>\<^verbatim>\<open>idList\<close> for all types: the keys, container by container.\<close>

definition idList :: "Store \<Rightarrow> ObjectId list" where
  "idList s = map fst (platforms s) @ map fst (beams s) @ map fst (gates s)
     @ map fst (lasers s) @ map fst (projectors s) @ map fst (lobGroups s)
     @ map fst (customRenderings s)"

text \<open>The entry of an id, looked up in the order of \<^verbatim>\<open>commonPrefs\<close>.\<close>

definition findEntry :: "Store \<Rightarrow> ObjectId \<Rightarrow> Entry option" where
  "findEntry s i =
     (case map_of (platforms s) i of Some e \<Rightarrow> Some e | None \<Rightarrow>
      case map_of (beams s) i of Some e \<Rightarrow> Some e | None \<Rightarrow>
      case map_of (gates s) i of Some e \<Rightarrow> Some e | None \<Rightarrow>
      case map_of (lasers s) i of Some e \<Rightarrow> Some e | None \<Rightarrow>
      case map_of (lobGroups s) i of Some e \<Rightarrow> Some e | None \<Rightarrow>
      case map_of (projectors s) i of Some e \<Rightarrow> Some e | None \<Rightarrow>
      map_of (customRenderings s) i)"

definition commonPrefs :: "Store \<Rightarrow> ObjectId \<Rightarrow> CommonPrefs option" where
  "commonPrefs s i = map_option (\<lambda>e. commonprefs (preferences e)) (findEntry s i)"

text \<open>\<^verbatim>\<open>entityHostId\<close>: 0 for platforms and for ids not found.\<close>

definition entityHostId :: "Store \<Rightarrow> ObjectId \<Rightarrow> ObjectId" where
  "entityHostId s i =
     (case objectType s i of
        BEAM \<Rightarrow> (case map_of (beams s) i of Some e \<Rightarrow> hostidValue (properties e) | None \<Rightarrow> 0)
      | GATE \<Rightarrow> (case map_of (gates s) i of Some e \<Rightarrow> hostidValue (properties e) | None \<Rightarrow> 0)
      | LASER \<Rightarrow> (case map_of (lasers s) i of Some e \<Rightarrow> hostidValue (properties e) | None \<Rightarrow> 0)
      | PROJECTOR \<Rightarrow> (case map_of (projectors s) i of Some e \<Rightarrow> hostidValue (properties e) | None \<Rightarrow> 0)
      | LOB_GROUP \<Rightarrow> (case map_of (lobGroups s) i of Some e \<Rightarrow> hostidValue (properties e) | None \<Rightarrow> 0)
      | CUSTOM_RENDERING \<Rightarrow>
          (case map_of (customRenderings s) i of Some e \<Rightarrow> hostidValue (properties e) | None \<Rightarrow> 0)
      | _ \<Rightarrow> 0)"

section \<open>Listener dispatch\<close>

definition addListener :: "ListenerId \<Rightarrow> Store \<Rightarrow> Store" where
  "addListener l s = s\<lparr>listeners := listeners s @ [l]\<rparr>"

text \<open>\<^verbatim>\<open>removeListener\<close>: the first occurrence is erased and staged in \<^verbatim>\<open>justRemoved_\<close>.\<close>

definition removeListener :: "ListenerId \<Rightarrow> Store \<Rightarrow> Store" where
  "removeListener l s =
     (if l \<in> set (listeners s)
      then s\<lparr>justRemoved := justRemoved s @ [l], listeners := remove1 l (listeners s)\<rparr>
      else s)"

text \<open>\<^verbatim>\<open>std::find\<close> followed by \<^verbatim>\<open>reset()\<close>: the first entry equal to the listener is nulled.\<close>

fun resetFirst :: "ListenerId \<Rightarrow> ListenerId option list \<Rightarrow> ListenerId option list" where
  "resetFirst l [] = []"
| "resetFirst l (x # xs) = (if x = Some l then None # xs else x # resetFirst l xs)"

definition checkForRemoval :: "ListenerId option list \<Rightarrow> Store \<Rightarrow> ListenerId option list \<times> Store" where
  "checkForRemoval lc s =
     (if justRemoved s = [] then (lc, s)
      else (fold resetFirst (justRemoved s) lc, s\<lparr>justRemoved := []\<rparr>))"

text \<open>
  One visit of a snapshot entry: for each event of the loop body in turn, if the entry
  is still non-null the callback runs and \<open>checkForRemoval\<close> follows. The loops of the
  source have one event per entry, the preference release has two.
\<close>

fun visit :: "Ext \<Rightarrow> nat \<Rightarrow> Event list \<Rightarrow> ListenerId option list \<Rightarrow> Store
    \<Rightarrow> ListenerId option list \<times> Store" where
  "visit x i [] lc s = (lc, s)"
| "visit x i (ev # evs) lc s =
     (case lc ! i of
        None \<Rightarrow> (lc, s)
      | Some l \<Rightarrow>
          (let s1 = callback x l ev (s\<lparr>trace := trace s @ [(l, ev)]\<rparr>);
               r = checkForRemoval lc s1
           in visit x i evs (fst r) (snd r)))"

text \<open>
  The iteration over the snapshot, from index \<open>i\<close>, for \<open>n\<close> more entries; the
  snapshot is returned with the store, for the loops that share one snapshot.
\<close>

fun dispatchFrom :: "Ext \<Rightarrow> Event list \<Rightarrow> nat \<Rightarrow> nat \<Rightarrow> ListenerId option list \<Rightarrow> Store
    \<Rightarrow> ListenerId option list \<times> Store" where
  "dispatchFrom x evs 0 i lc s = (lc, s)"
| "dispatchFrom x evs (Suc n) i lc s =
     (let r = visit x i evs lc s in dispatchFrom x evs n (Suc i) (fst r) (snd r))"

text \<open>The loop over a whole snapshot.\<close>

definition dispatchOver :: "Ext \<Rightarrow> Event list \<Rightarrow> ListenerId option list \<Rightarrow> Store
    \<Rightarrow> ListenerId option list \<times> Store" where
  "dispatchOver x evs lc s = dispatchFrom x evs (length lc) 0 lc s"

text \<open>A dispatch pass: snapshot of \<open>listeners\<close>, \<open>justRemoved\<close> cleared, then the loop.\<close>

definition dispatch :: "Ext \<Rightarrow> Event list \<Rightarrow> Store \<Rightarrow> Store" where
  "dispatch x evs s = snd (dispatchOver x evs (map Some (listeners s)) (s\<lparr>justRemoved := []\<rparr>))"

section \<open>Removing entities\<close>

text \<open>
  Modelled from the spec: \<^verbatim>\<open>DataStoreHelpers::nameFromId\<close> and the entity name cache
  are outside the sources at hand; the cache is the list of the (name, id, type) entries
  added, and removing an entity drops its entry.
\<close>

definition nameFromId :: "Store \<Rightarrow> ObjectId \<Rightarrow> string" where
  "nameFromId s i = (case commonPrefs s i of None \<Rightarrow> [] | Some c \<Rightarrow> name c)"

definition nameCacheRemove :: "string \<Rightarrow> ObjectId \<Rightarrow> ObjectType
    \<Rightarrow> (string \<times> ObjectId \<times> ObjectType) list \<Rightarrow> (string \<times> ObjectId \<times> ObjectType) list" where
  "nameCacheRemove n i ot c = filter (\<lambda>e. e \<noteq> (n, i, ot)) c"

definition fireOnPostRemoveEntity :: "Ext \<Rightarrow> ObjectId \<Rightarrow> ObjectType \<Rightarrow> Store \<Rightarrow> Store" where
  "fireOnPostRemoveEntity x i ot s = dispatch x [OnPostRemoveEntity i ot] s"

text \<open>The loop \<^verbatim>\<open>for (i in ids) removeEntity(*i)\<close>, for any removal function.\<close>

fun removeEach :: "(ObjectId \<Rightarrow> Store \<Rightarrow> Store option) \<Rightarrow> ObjectId list \<Rightarrow> Store \<Rightarrow> Store option" where
  "removeEach f [] s = Some s"
| "removeEach f (i # ids) s = (case f i s of None \<Rightarrow> None | Some s1 \<Rightarrow> removeEach f ids s1)"

text \<open>
  The first part of \<^verbatim>\<open>removeEntity\<close> for an id of type \<open>ot\<close>: the changed flag, the
  pre-removal notification, the name cache, the sparse slices and the data tables.
\<close>

definition removePrepare :: "Ext \<Rightarrow> ObjectId \<Rightarrow> ObjectType \<Rightarrow> Store \<Rightarrow> Store" where
  "removePrepare x i ot s =
     (let s1 = dispatch x [OnRemoveEntity i ot] (s\<lparr>hasChanged := True\<rparr>);
          s2 = s1\<lparr>entityNameCache := nameCacheRemove (nameFromId s1 i) i ot (entityNameCache s1)\<rparr>
      in s2\<lparr>genericData := eraseKey i (genericData s2),
             categoryData := eraseKey i (categoryData s2),
             dataTables := eraseKey i (dataTables s2)\<rparr>)"

text \<open>
  \<^verbatim>\<open>removeEntity\<close>. The source recurses on every hosted id; the first argument bounds
  the depth of that recursion, and \<open>None\<close> is a recursion that needs more.
\<close>

fun removeEntity :: "Ext \<Rightarrow> nat \<Rightarrow> ObjectId \<Rightarrow> Store \<Rightarrow> Store option" where
  "removeEntity x 0 i s = None"
| "removeEntity x (Suc n) i s =
     (let ot = objectType s i in
      if ot = NONE then Some s
      else
        let s3 = removePrepare x i ot s
        in
          if hasKey (platforms s3) i then
            (let ids = beamIdListForHost s3 i @ laserIdListForHost s3 i
                   @ projectorIdListForHost s3 i @ lobGroupIdListForHost s3 i
                   @ customRenderingIdListForHost s3 i
             in case removeEach (removeEntity x n) ids s3 of
                  None \<Rightarrow> None
                | Some s4 \<Rightarrow>
                    Some (fireOnPostRemoveEntity x i ot (s4\<lparr>platforms := eraseKey i (platforms s4)\<rparr>)))
          else if hasKey (beams s3) i then
            (let ids = gateIdListForHost s3 i @ projectorIdListForHost s3 i
             in case removeEach (removeEntity x n) ids s3 of
                  None \<Rightarrow> None
                | Some s4 \<Rightarrow>
                    Some (fireOnPostRemoveEntity x i ot (s4\<lparr>beams := eraseKey i (beams s4)\<rparr>)))
          else if hasKey (gates s3) i then
            Some (fireOnPostRemoveEntity x i ot (s3\<lparr>gates := eraseKey i (gates s3)\<rparr>))
          else if hasKey (lasers s3) i then
            Some (fireOnPostRemoveEntity x i ot (s3\<lparr>lasers := eraseKey i (lasers s3)\<rparr>))
          else if hasKey (projectors s3) i then
            Some (fireOnPostRemoveEntity x i ot (s3\<lparr>projectors := eraseKey i (projectors s3)\<rparr>))
          else if hasKey (lobGroups s3) i then
            Some (fireOnPostRemoveEntity x i ot (s3\<lparr>lobGroups := eraseKey i (lobGroups s3)\<rparr>))
          else if hasKey (customRenderings s3) i then
            Some (fireOnPostRemoveEntity x i ot (s3\<lparr>customRenderings := eraseKey i (customRenderings s3)\<rparr>))
          else Some s3)"

text \<open>
  The ids that \<^verbatim>\<open>removeEntity\<close> removes before it erases the entry of a platform and
  of a beam: the host lists it concatenates, in its order.
\<close>

definition platformHosted :: "Store \<Rightarrow> ObjectId \<Rightarrow> ObjectId list" where
  "platformHosted s i = beamIdListForHost s i @ laserIdListForHost s i
     @ projectorIdListForHost s i @ lobGroupIdListForHost s i @ customRenderingIdListForHost s i"

definition beamHosted :: "Store \<Rightarrow> ObjectId \<Rightarrow> ObjectId list" where
  "beamHosted s i = gateIdListForHost s i @ projectorIdListForHost s i"

text \<open>
  The calls that the loop \<open>removeEach\<close> makes: each id with the store it is removed
  from, as far as the loop gets.
\<close>

fun removeEachAt :: "(ObjectId \<Rightarrow> Store \<Rightarrow> Store option) \<Rightarrow> ObjectId list \<Rightarrow> Store
    \<Rightarrow> (ObjectId \<times> Store) list" where
  "removeEachAt f [] s = []"
| "removeEachAt f (i # ids) s =
     (i, s) # (case f i s of None \<Rightarrow> [] | Some s1 \<Rightarrow> removeEachAt f ids s1)"

text \<open>
  The ids hosted on a platform, as \<^verbatim>\<open>removeEntity\<close> walks them: what the five host
  lists give for the platform, and the gates and projectors of each of those beams.
\<close>

definition hostedOn :: "Store \<Rightarrow> ObjectId \<Rightarrow> ObjectId set" where
  "hostedOn s p =
     set (beamIdListForHost s p) \<union> set (laserIdListForHost s p)
     \<union> set (projectorIdListForHost s p) \<union> set (lobGroupIdListForHost s p)
     \<union> set (customRenderingIdListForHost s p)
     \<union> (\<Union>b \<in> set (beamIdListForHost s p).
           set (gateIdListForHost s b) \<union> set (projectorIdListForHost s b))"

text \<open>Every id is the key of one entry of one container (ids come from one counter).\<close>

definition uniqueIds :: "Store \<Rightarrow> bool" where
  "uniqueIds s = distinct (idList s)"

text \<open>The seven containers, in the order of \<open>objectType\<close>.\<close>

definition ents :: "Store \<Rightarrow> Container list" where
  "ents s = [platforms s, beams s, gates s, lasers s, projectors s, lobGroups s,
     customRenderings s]"

text \<open>Callbacks that leave the seven containers as they are.\<close>

definition keepsEntities :: "Ext \<Rightarrow> bool" where
  "keepsEntities x = (\<forall>l ev s. ents (callback x l ev s) = ents s)"

text \<open>\<open>shrunk R s t\<close>: the containers of \<open>t\<close> are those of \<open>s\<close> without the ids in \<open>R\<close>.\<close>

definition shrunk :: "ObjectId set \<Rightarrow> Store \<Rightarrow> Store \<Rightarrow> bool" where
  "shrunk R s t = (ents t = map (filter (\<lambda>p. fst p \<notin> R)) (ents s))"

text \<open>What removing \<open>c\<close> takes along when \<open>c\<close> is a beam: its gates and projectors.\<close>

definition beamSubtree :: "Store \<Rightarrow> ObjectId \<Rightarrow> ObjectId set" where
  "beamSubtree s c =
     (if hasKey (beams s) c
      then insert c (set (gateIdListForHost s c) \<union> set (projectorIdListForHost s c))
      else {c})"


section \<open>The update engine\<close>

datatype 'a Outcome = Done 'a | AssertionFailure | NullDereference

text \<open>\<^verbatim>\<open>bindToClock\<close>: the clock pointer is stored, nothing else.\<close>

definition bindToClock :: "bool option \<Rightarrow> Store \<Rightarrow> Store" where
  "bindToClock clock s = s\<lparr>boundClock := clock\<rparr>"

text \<open>The local \<^verbatim>\<open>fileMode\<close> of \<^verbatim>\<open>updatePlatforms_\<close>.\<close>

definition fileMode :: "Store \<Rightarrow> bool" where
  "fileMode s = (case boundClock s of None \<Rightarrow> True | Some live \<Rightarrow> \<not> live)"

definition isInterpolationEnabled :: "Store \<Rightarrow> bool" where
  "isInterpolationEnabled s = (interpolationEnabled s \<and> interpolator s \<noteq> None)"

text \<open>\<^verbatim>\<open>commands()->update(this, id, time)\<close> on an entry.\<close>

definition applyCommands :: "Ext \<Rightarrow> ObjectId \<Rightarrow> Double \<Rightarrow> Entry \<Rightarrow> Entry" where
  "applyCommands x i t e =
     (let r = commandsUpdate x i t (commands e) (preferences e)
      in e\<lparr>commands := fst r, preferences := snd r\<rparr>)"

text \<open>\<^verbatim>\<open>updates()->setCurrent(p)\<close> on an entry.\<close>

definition setCurrent :: "Update option \<Rightarrow> Entry \<Rightarrow> Entry" where
  "setCurrent v e = e\<lparr>updates := (updates e)\<lparr>current := v\<rparr>\<rparr>"

text \<open>The choice between \<^verbatim>\<open>update(time, interpolator_)\<close> and \<^verbatim>\<open>update(time)\<close>.\<close>

definition lookupUpdate :: "Ext \<Rightarrow> bool \<Rightarrow> Double \<Rightarrow> Entry \<Rightarrow> Entry" where
  "lookupUpdate x interp t e =
     (if interp then e\<lparr>updates := sliceUpdateInterp x t (updates e)\<rparr>
      else e\<lparr>updates := sliceUpdate x t (updates e)\<rparr>)"

text \<open>The body of the loop of \<^verbatim>\<open>updatePlatforms_\<close>.\<close>

definition updatePlatformEntry :: "Ext \<Rightarrow> Store \<Rightarrow> Double \<Rightarrow> ObjectId \<Rightarrow> Entry \<Rightarrow> Entry" where
  "updatePlatformEntry x s t i e =
     (let platform = applyCommands x i t e in
      if \<not> datadraw (commonprefs (preferences platform)) then setCurrent None platform
      else if fileMode s \<and> \<not> doubleEq (firstTime x (updates platform)) (Num (- 1))
              \<and> (doubleLess t (firstTime x (updates platform))
                   \<or> doubleLess (lastTime x (updates platform)) t)
      then setCurrent None platform
      else lookupUpdate x (isInterpolationEnabled s \<and> interpolate (preferences platform)) t platform)"

definition updatePlatforms :: "Ext \<Rightarrow> Double \<Rightarrow> Store \<Rightarrow> Store" where
  "updatePlatforms x t s =
     s\<lparr>platforms := map (\<lambda>p. (fst p, updatePlatformEntry x s t (fst p) (snd p))) (platforms s)\<rparr>"

text \<open>The current sample of a platform when it is there and has a position.\<close>

definition currentPosition :: "Store \<Rightarrow> ObjectId \<Rightarrow> (real \<times> real \<times> real) option" where
  "currentPosition s i =
     (case map_of (platforms s) i of
        None \<Rightarrow> None
      | Some plat \<Rightarrow> (case current (updates plat) of None \<Rightarrow> None | Some u \<Rightarrow> position u))"

text \<open>
  \<^verbatim>\<open>updateTargetBeam_\<close>. The sample delivered is the slot
  \<^verbatim>\<open>currentInterpolated()\<close>, which \<open>current\<close> then points to.
\<close>

definition updateTargetBeam :: "Store \<Rightarrow> Double \<Rightarrow> Entry \<Rightarrow> Entry" where
  "updateTargetBeam s t beam =
     (case hostid (properties beam) of
        None \<Rightarrow> setCurrent None beam
      | Some h \<Rightarrow>
     (case targetid (preferences beam) of
        None \<Rightarrow> setCurrent None beam
      | Some tg \<Rightarrow>
     (case map_of (platforms s) h of
        None \<Rightarrow> setCurrent None beam
      | Some sourcePlatform \<Rightarrow>
     (case current (updates sourcePlatform) of
        None \<Rightarrow> setCurrent None beam
      | Some sourceUpdate \<Rightarrow>
     if position sourceUpdate = None then setCurrent None beam
     else
     (case map_of (platforms s) tg of
        None \<Rightarrow> setCurrent None beam
      | Some destPlatform \<Rightarrow>
     (case current (updates destPlatform) of
        None \<Rightarrow> setCurrent None beam
      | Some destUpdate \<Rightarrow>
     if position destUpdate = None then setCurrent None beam
     else
       (let upd = currentInterpolated (updates beam) in
        if current (updates beam) = None \<or> \<not> doubleEq (utime upd) t then
          (let u1 = upd\<lparr>utime := t, azimuth := 0, elevation := 0, rangeVal := 0\<rparr>
           in beam\<lparr>updates := (updates beam)\<lparr>currentInterpolated := u1, current := Some u1,
                  changed := True\<rparr>\<rparr>)
        else beam\<lparr>updates := (updates beam)\<lparr>changed := False\<rparr>\<rparr>)))))))"

text \<open>The body of the loop of \<^verbatim>\<open>updateBeams_\<close>.\<close>

definition updateBeamEntry :: "Ext \<Rightarrow> Store \<Rightarrow> Double \<Rightarrow> ObjectId \<Rightarrow> Entry \<Rightarrow> Entry" where
  "updateBeamEntry x s t i e =
     (let beamEntry = applyCommands x i t e in
      if \<not> datadraw (commonprefs (preferences beamEntry)) then setCurrent None beamEntry
      else if ptype (properties beamEntry) = TARGET then updateTargetBeam s t beamEntry
      else lookupUpdate x (isInterpolationEnabled s \<and> interpolate (preferences beamEntry)) t beamEntry)"

definition updateBeams :: "Ext \<Rightarrow> Double \<Rightarrow> Store \<Rightarrow> Store" where
  "updateBeams x t s =
     s\<lparr>beams := map (\<lambda>p. (fst p, updateBeamEntry x s t (fst p) (snd p))) (beams s)\<rparr>"

definition getBeamForGate :: "Store \<Rightarrow> ObjectId \<Rightarrow> Entry option" where
  "getBeamForGate s gateID = map_of (beams s) gateID"

definition gateUsesBeamBeamwidth :: "Entry \<Rightarrow> bool" where
  "gateUsesBeamBeamwidth gate =
     (case current (updates gate) of
        None \<Rightarrow> False
      | Some currentUpdate \<Rightarrow>
          hostid (properties gate) \<noteq> None \<and> (height currentUpdate \<le> 0 \<or> width currentUpdate \<le> 0))"

text \<open>
  The part of \<^verbatim>\<open>updateTargetGate_\<close> after the host beam has passed the checks: the
  two platforms, then the gate's own update and the republished sample.
\<close>

definition updateTargetGateFrom :: "Ext \<Rightarrow> Store \<Rightarrow> Double \<Rightarrow> ObjectId \<Rightarrow> ObjectId \<Rightarrow> Entry \<Rightarrow> Entry" where
  "updateTargetGateFrom x s t h tg gate =
     (if currentPosition s h = None then setCurrent None gate
      else if currentPosition s tg = None then setCurrent None gate
      else
        (let gateWasOff = (current (updates gate) = None);
             lastUpdateTime = utime (currentInterpolated (updates gate));
             g1 = lookupUpdate x (isInterpolationEnabled s \<and> interpolate (preferences gate)) t gate
         in case current (updates g1) of
              None \<Rightarrow> g1
            | Some currentUpdate \<Rightarrow>
                if gateWasOff \<or> \<not> doubleEq lastUpdateTime t \<or> gateUsesBeamBeamwidth g1 then
                  (let u1 = (currentInterpolated (updates g1))\<lparr>utime := t, azimuth := 0,
                         elevation := 0, minrange := minrange currentUpdate,
                         maxrange := maxrange currentUpdate, centroid := centroid currentUpdate\<rparr>
                   in g1\<lparr>updates := (updates g1)\<lparr>currentInterpolated := u1, current := Some u1,
                          changed := True\<rparr>\<rparr>)
                else g1\<lparr>updates := (updates g1)\<lparr>changed := False\<rparr>\<rparr>))"

text \<open>
  \<^verbatim>\<open>updateTargetGate_\<close>. With assertions compiled in, the first \<^verbatim>\<open>assert\<close> fails on
  a gate that is not a target gate; the second reads the type through the beam pointer
  before the pointer is tested, a null dereference when no beam has the host id, and
  fails on a beam that is not a target beam. Without assertions only the tests remain.
\<close>

definition updateTargetGate :: "Ext \<Rightarrow> Store \<Rightarrow> Double \<Rightarrow> Entry \<Rightarrow> Entry Outcome" where
  "updateTargetGate x s t gate =
     (if debugBuild x \<and> ptype (properties gate) \<noteq> TARGET then AssertionFailure
      else
      (case hostid (properties gate) of
         None \<Rightarrow> Done (setCurrent None gate)
       | Some gh \<Rightarrow>
      (case getBeamForGate s gh of
         None \<Rightarrow> if debugBuild x then NullDereference else Done (setCurrent None gate)
       | Some beam \<Rightarrow>
           if debugBuild x \<and> ptype (properties beam) \<noteq> TARGET then AssertionFailure
           else if hostid (properties beam) = None \<or> ptype (properties beam) \<noteq> TARGET
                   \<or> targetid (preferences beam) = None
           then Done (setCurrent None gate)
           else Done (updateTargetGateFrom x s t (hostidValue (properties beam))
                        (case targetid (preferences beam) of None \<Rightarrow> 0 | Some tg \<Rightarrow> tg) gate))))"

text \<open>The body of the loop of \<^verbatim>\<open>updateGates_\<close>.\<close>

definition updateGateEntry :: "Ext \<Rightarrow> Store \<Rightarrow> Double \<Rightarrow> ObjectId \<Rightarrow> Entry \<Rightarrow> Entry Outcome" where
  "updateGateEntry x s t i e =
     (let gateEntry = applyCommands x i t e in
      if \<not> datadraw (commonprefs (preferences gateEntry)) then Done (setCurrent None gateEntry)
      else if ptype (properties gateEntry) = TARGET then updateTargetGate x s t gateEntry
      else
        (let g1 = lookupUpdate x (isInterpolationEnabled s \<and> interpolate (preferences gateEntry)) t gateEntry
         in if gateUsesBeamBeamwidth g1 then Done (g1\<lparr>updates := (updates g1)\<lparr>changed := True\<rparr>\<rparr>)
            else Done g1))"

text \<open>The loop over the gates stops at the first entry that does not return.\<close>

fun updateGateList :: "Ext \<Rightarrow> Store \<Rightarrow> Double \<Rightarrow> Container \<Rightarrow> Container Outcome" where
  "updateGateList x s t [] = Done []"
| "updateGateList x s t (p # ps) =
     (case updateGateEntry x s t (fst p) (snd p) of
        Done e \<Rightarrow>
          (case updateGateList x s t ps of
             Done r \<Rightarrow> Done ((fst p, e) # r)
           | AssertionFailure \<Rightarrow> AssertionFailure
           | NullDereference \<Rightarrow> NullDereference)
      | AssertionFailure \<Rightarrow> AssertionFailure
      | NullDereference \<Rightarrow> NullDereference)"

definition updateGates :: "Ext \<Rightarrow> Double \<Rightarrow> Store \<Rightarrow> Store Outcome" where
  "updateGates x t s =
     (case updateGateList x s t (gates s) of
        Done g \<Rightarrow> Done (s\<lparr>gates := g\<rparr>)
      | AssertionFailure \<Rightarrow> AssertionFailure
      | NullDereference \<Rightarrow> NullDereference)"

text \<open>The bodies of the loops of \<^verbatim>\<open>updateLasers_\<close> and \<^verbatim>\<open>updateProjectors_\<close>.\<close>

definition updateLaserEntry :: "Ext \<Rightarrow> Store \<Rightarrow> Double \<Rightarrow> ObjectId \<Rightarrow> Entry \<Rightarrow> Entry" where
  "updateLaserEntry x s t i e =
     (let laserEntry = applyCommands x i t e in
      if \<not> datadraw (commonprefs (preferences laserEntry)) then setCurrent None laserEntry
      else lookupUpdate x (isInterpolationEnabled s) t laserEntry)"

definition updateLasers :: "Ext \<Rightarrow> Double \<Rightarrow> Store \<Rightarrow> Store" where
  "updateLasers x t s =
     s\<lparr>lasers := map (\<lambda>p. (fst p, updateLaserEntry x s t (fst p) (snd p))) (lasers s)\<rparr>"

definition updateProjectorEntry :: "Ext \<Rightarrow> Store \<Rightarrow> Double \<Rightarrow> ObjectId \<Rightarrow> Entry \<Rightarrow> Entry" where
  "updateProjectorEntry x s t i e =
     (let projectorEntry = applyCommands x i t e in
      lookupUpdate x (isInterpolationEnabled s \<and> interpolate (preferences projectorEntry)) t
        projectorEntry)"

definition updateProjectors :: "Ext \<Rightarrow> Double \<Rightarrow> Store \<Rightarrow> Store" where
  "updateProjectors x t s =
     s\<lparr>projectors := map (\<lambda>p. (fst p, updateProjectorEntry x s t (fst p) (snd p))) (projectors s)\<rparr>"

definition updateLobGroupEntry :: "Ext \<Rightarrow> Double \<Rightarrow> ObjectId \<Rightarrow> Entry \<Rightarrow> Entry" where
  "updateLobGroupEntry x t i e =
     (let lob = applyCommands x i t e
      in lob\<lparr>updates := lobUpdate x (maxdatapoints (preferences lob))
                 (maxdataseconds (preferences lob)) t (updates lob)\<rparr>)"

definition updateLobGroups :: "Ext \<Rightarrow> Double \<Rightarrow> Store \<Rightarrow> Store" where
  "updateLobGroups x t s =
     s\<lparr>lobGroups := map (\<lambda>p. (fst p, updateLobGroupEntry x t (fst p) (snd p))) (lobGroups s)\<rparr>"

definition updateCustomRenderings :: "Ext \<Rightarrow> Double \<Rightarrow> Store \<Rightarrow> Store" where
  "updateCustomRenderings x t s =
     s\<lparr>customRenderings := map (\<lambda>p. (fst p, applyCommands x (fst p) t (snd p))) (customRenderings s)\<rparr>"

definition updateSparseSlices :: "Ext \<Rightarrow> Double \<Rightarrow> Store \<Rightarrow> Store" where
  "updateSparseSlices x t s =
     s\<lparr>genericData := map (\<lambda>p. (fst p, genericUpdate x t (snd p))) (genericData s)\<rparr>"

definition putKey :: "ObjectId \<Rightarrow> 'a \<Rightarrow> (ObjectId \<times> 'a) list \<Rightarrow> (ObjectId \<times> 'a) list" where
  "putKey k v m = map (\<lambda>p. if fst p = k then (k, v) else p) m"

text \<open>
  The loop over the category data slices, by key: the slice is updated and, when it
  reports a change, the listeners of the shared snapshot are told.
\<close>

fun categoryLoop :: "Ext \<Rightarrow> Double \<Rightarrow> ObjectId list \<Rightarrow> ListenerId option list \<Rightarrow> Store
    \<Rightarrow> ListenerId option list \<times> Store" where
  "categoryLoop x t [] lc s = (lc, s)"
| "categoryLoop x t (i # is) lc s =
     (case map_of (categoryData s) i of
        None \<Rightarrow> categoryLoop x t is lc s
      | Some c \<Rightarrow>
          (let r = categoryUpdate x t c;
               s1 = s\<lparr>categoryData := putKey i (fst r) (categoryData s)\<rparr>
           in if snd r then
                (let d = dispatchOver x [OnCategoryDataChange i (objectType s1 i)] lc s1
                 in categoryLoop x t is (fst d) (snd d))
              else categoryLoop x t is lc s1))"

text \<open>\<^verbatim>\<open>update\<close> from the sparse slices on, the gates being done.\<close>

definition updateRest :: "Ext \<Rightarrow> Double \<Rightarrow> Store \<Rightarrow> Store" where
  "updateRest x t s =
     (let s1 = updateSparseSlices x t s;
          localCopy = map Some (listeners s1);
          c = categoryLoop x t (map fst (categoryData s1)) localCopy (s1\<lparr>justRemoved := []\<rparr>);
          s2 = updateCustomRenderings x t (updateLobGroups x t
                 (updateProjectors x t (updateLasers x t (snd c))));
          s3 = s2\<lparr>lastUpdateTime := t, hasChanged := False\<rparr>
      in snd (dispatchOver x [OnChange] (fst c) s3))"

text \<open>\<^verbatim>\<open>update(time)\<close>.\<close>

definition update :: "Ext \<Rightarrow> Double \<Rightarrow> Store \<Rightarrow> Store Outcome" where
  "update x t s =
     (if \<not> hasChanged s \<and> doubleEq t (lastUpdateTime s) then Done s
      else
        (case updateGates x t (updateBeams x t (updatePlatforms x t s)) of
           Done s1 \<Rightarrow> Done (updateRest x t s1)
         | AssertionFailure \<Rightarrow> AssertionFailure
         | NullDereference \<Rightarrow> NullDereference))"

section \<open>Flushing\<close>

datatype FlushScope = FLUSH_NONRECURSIVE | FLUSH_RECURSIVE

text \<open>
  Modelled from the spec: the flush fields are declared outside the sources at hand; a
  bitmask selecting any combination of updates, commands, category data, generic data
  and data tables, with the flag that excludes the samples at time \<open>-1\<close>. \<open>FLUSH_ALL\<close>
  selects the five kinds of data.
\<close>

record FlushFields =
  flushUpdates :: bool
  flushCommands :: bool
  flushCategoryData :: bool
  flushGenericData :: bool
  flushDataTables :: bool
  flushExcludeMinusOne :: bool


text \<open>\<^verbatim>\<open>std::numeric_limits<double>::max()\<close>.\<close>

definition dblMax :: real where
  "dblMax = 2 ^ 1024 - 2 ^ 971"

text \<open>
  Modelled from the spec: the slices' \<^verbatim>\<open>flush\<close> are outside the sources at hand; the
  time range from \<open>startTime\<close> to \<open>endTime\<close>, the end excluded, bounds what is erased, and
  \<^verbatim>\<open>flush()\<close> without a range erases everything.
\<close>

definition inFlushRange :: "real \<Rightarrow> real \<Rightarrow> Double \<Rightarrow> bool" where
  "inFlushRange startTime endTime t =
     (doubleLessEq (Num startTime) t \<and> doubleLess t (Num endTime))"

definition sliceFlush :: "real \<Rightarrow> real \<Rightarrow> Slice \<Rightarrow> Slice" where
  "sliceFlush startTime endTime sl =
     sl\<lparr>items := filter (\<lambda>u. \<not> inFlushRange startTime endTime (utime u)) (items sl)\<rparr>"

definition commandsFlush :: "real \<Rightarrow> real \<Rightarrow> Command list \<Rightarrow> Command list" where
  "commandsFlush startTime endTime cs =
     filter (\<lambda>c. \<not> inFlushRange startTime endTime (Num (ctime c))) cs"

definition sparseFlush :: "real \<Rightarrow> real \<Rightarrow> (real \<times> nat) list \<Rightarrow> (real \<times> nat) list" where
  "sparseFlush startTime endTime g =
     filter (\<lambda>r. \<not> inFlushRange startTime endTime (Num (fst r))) g"

text \<open>The helper \<^verbatim>\<open>flushEntityData\<close>, on the entry and on the container.\<close>

definition flushEntry :: "bool \<Rightarrow> bool \<Rightarrow> real \<Rightarrow> real \<Rightarrow> Entry \<Rightarrow> Entry" where
  "flushEntry fu fc startTime endTime e =
     (let e1 = (if fu then e\<lparr>updates := sliceFlush startTime endTime (updates e)\<rparr> else e)
      in if fc then e1\<lparr>commands := commandsFlush startTime endTime (commands e1)\<rparr> else e1)"

definition flushEntityData :: "Container \<Rightarrow> ObjectId \<Rightarrow> bool \<Rightarrow> bool \<Rightarrow> real \<Rightarrow> real \<Rightarrow> Container" where
  "flushEntityData m i fu fc startTime endTime =
     map (\<lambda>p. if fst p = i then (fst p, flushEntry fu fc startTime endTime (snd p)) else p) m"

text \<open>\<^verbatim>\<open>flushDataTables_(id, startTime, endTime)\<close>: every table of the owner.\<close>

definition flushTable :: "real \<Rightarrow> real \<Rightarrow> DataTable \<Rightarrow> DataTable" where
  "flushTable startTime endTime tb =
     (if startTime \<le> 0 \<and> endTime = dblMax then [] else sparseFlush startTime endTime tb)"

definition flushDataTablesOf :: "ObjectId \<Rightarrow> real \<Rightarrow> real \<Rightarrow> Store \<Rightarrow> Store" where
  "flushDataTablesOf i startTime endTime s =
     s\<lparr>dataTables := map (\<lambda>p. if fst p = i then (fst p, map (flushTable startTime endTime) (snd p)) else p)
          (dataTables s)\<rparr>"

text \<open>The category data and generic data branches at the end of \<^verbatim>\<open>flushEntity_\<close>.\<close>

definition flushCategoryOf :: "ObjectId \<Rightarrow> FlushFields \<Rightarrow> real \<Rightarrow> real \<Rightarrow> Store \<Rightarrow> Store" where
  "flushCategoryOf i ff startTime endTime s =
     s\<lparr>categoryData := map (\<lambda>p. if fst p = i
          then (fst p, if startTime = 0 \<and> endTime = dblMax \<and> flushExcludeMinusOne ff then []
                       else sparseFlush startTime endTime (snd p))
          else p) (categoryData s)\<rparr>"

definition flushGenericOf :: "ObjectId \<Rightarrow> real \<Rightarrow> real \<Rightarrow> Store \<Rightarrow> Store" where
  "flushGenericOf i startTime endTime s =
     s\<lparr>genericData := map (\<lambda>p. if fst p = i
          then (fst p, if startTime \<le> 0 \<and> endTime = dblMax then []
                       else sparseFlush startTime endTime (snd p))
          else p) (genericData s)\<rparr>"

definition flushSparseOf :: "ObjectId \<Rightarrow> FlushFields \<Rightarrow> real \<Rightarrow> real \<Rightarrow> Store \<Rightarrow> Store" where
  "flushSparseOf i ff startTime endTime s =
     (let s1 = (if flushCategoryData ff then flushCategoryOf i ff startTime endTime s else s);
          s2 = (if flushGenericData ff then flushGenericOf i startTime endTime s1 else s1)
      in if flushDataTables ff then flushDataTablesOf i startTime endTime s2 else s2)"

text \<open>The recursion of \<^verbatim>\<open>flushEntity_\<close> goes from platforms to beams to gates.\<close>

fun typeRank :: "ObjectType \<Rightarrow> nat" where
  "typeRank PLATFORM = 2"
| "typeRank BEAM = 1"
| "typeRank ty = 0"

text \<open>\<^verbatim>\<open>flushEntity_\<close>.\<close>

function flushEntity :: "ObjectId \<Rightarrow> ObjectType \<Rightarrow> FlushScope \<Rightarrow> FlushFields \<Rightarrow> real \<Rightarrow> real
    \<Rightarrow> Store \<Rightarrow> Store" where
  "flushEntity i PLATFORM scope ff st en s =
     (let s1 = s\<lparr>platforms := flushEntityData (platforms s) i (flushUpdates ff) (flushCommands ff) st en\<rparr>;
          s2 = (if scope = FLUSH_RECURSIVE then
                  (let a = fold (\<lambda>c. flushEntity c BEAM scope ff st en) (beamIdListForHost s1 i) s1;
                       b = fold (\<lambda>c. flushEntity c LASER scope ff st en) (laserIdListForHost a i) a;
                       c = fold (\<lambda>c. flushEntity c LOB_GROUP scope ff st en) (lobGroupIdListForHost b i) b;
                       d = fold (\<lambda>c. flushEntity c PROJECTOR scope ff st en) (projectorIdListForHost c i) c
                   in fold (\<lambda>c. flushEntity c CUSTOM_RENDERING scope ff st en)
                        (customRenderingIdListForHost d i) d)
                else s1)
      in flushSparseOf i ff st en s2)"
| "flushEntity i BEAM scope ff st en s =
     (let s1 = s\<lparr>beams := flushEntityData (beams s) i (flushUpdates ff) (flushCommands ff) st en\<rparr>;
          s2 = (if scope = FLUSH_RECURSIVE then
                  (let a = fold (\<lambda>c. flushEntity c GATE scope ff st en) (gateIdListForHost s1 i) s1
                   in fold (\<lambda>c. flushEntity c PROJECTOR scope ff st en) (projectorIdListForHost a i) a)
                else s1)
      in flushSparseOf i ff st en s2)"
| "flushEntity i GATE scope ff st en s =
     flushSparseOf i ff st en
       (s\<lparr>gates := flushEntityData (gates s) i (flushUpdates ff) (flushCommands ff) st en\<rparr>)"
| "flushEntity i LASER scope ff st en s =
     flushSparseOf i ff st en
       (s\<lparr>lasers := flushEntityData (lasers s) i (flushUpdates ff) (flushCommands ff) st en\<rparr>)"
| "flushEntity i LOB_GROUP scope ff st en s =
     flushSparseOf i ff st en
       (s\<lparr>lobGroups := flushEntityData (lobGroups s) i (flushUpdates ff) (flushCommands ff) st en\<rparr>)"
| "flushEntity i PROJECTOR scope ff st en s =
     flushSparseOf i ff st en
       (s\<lparr>projectors := flushEntityData (projectors s) i (flushUpdates ff) (flushCommands ff) st en\<rparr>)"
| "flushEntity i CUSTOM_RENDERING scope ff st en s =
     flushSparseOf i ff st en
       (s\<lparr>customRenderings := flushEntityData (customRenderings s) i (flushUpdates ff)
            (flushCommands ff) st en\<rparr>)"
| "flushEntity i ALL_TYPES scope ff st en s = flushSparseOf i ff st en s"
| "flushEntity i NONE scope ff st en s = flushSparseOf i ff st en s"
  by pat_completeness auto
termination
  by (relation "measure (\<lambda>(i, ty, scope, ff, st, en, s). typeRank ty)") auto

text \<open>
  \<^verbatim>\<open>flush(id, scope, ff, startTime, endTime)\<close>: the status returned (0, or 1 for
  an id that is not there) and the store.
\<close>

definition flushRange :: "Ext \<Rightarrow> ObjectId \<Rightarrow> FlushScope \<Rightarrow> FlushFields \<Rightarrow> real \<Rightarrow> real \<Rightarrow> Store
    \<Rightarrow> nat \<times> Store" where
  "flushRange x i scope ff st en s =
     (if i \<noteq> 0 \<and> objectType s i = NONE then (1, s)
      else
        (let s1 = (if i = 0 then
                     (let a = (if scope = FLUSH_RECURSIVE then
                                 (let p = fold (\<lambda>c. flushEntity c PLATFORM scope ff st en)
                                            (map fst (platforms s)) s
                                  in fold (\<lambda>c. flushEntity c CUSTOM_RENDERING scope ff st en)
                                       (map fst (customRenderings p)) p)
                               else s);
                          b = (if flushDataTables ff then flushDataTablesOf i st en a else a)
                      in if flushGenericData ff then flushGenericOf 0 st en b else b)
                   else flushEntity i (objectType s i) scope ff st en s);
             s2 = dispatch x [OnFlush i] (s1\<lparr>hasChanged := True\<rparr>)
         in (0, s2\<lparr>newUpdatesTrace := newUpdatesTrace s2 @ [NUFlush i]\<rparr>)))"

text \<open>\<^verbatim>\<open>flush(id, scope, ff)\<close>: the whole time range.\<close>

definition flush :: "Ext \<Rightarrow> ObjectId \<Rightarrow> FlushScope \<Rightarrow> FlushFields \<Rightarrow> Store \<Rightarrow> nat \<times> Store" where
  "flush x i scope ff s =
     flushRange x i scope ff (if flushExcludeMinusOne ff then 0 else - 1) dblMax s"

section \<open>Transactions\<close>

text \<open>
  The accessors of one kind (\<^verbatim>\<open>addPlatform\<close>, \<^verbatim>\<open>addBeam\<close>, ...;
  \<^verbatim>\<open>mutable_platformPrefs\<close>, \<^verbatim>\<open>mutable_beamPrefs\<close>, ...) are instances of one template
  and differ in the container they use; here the object type selects the container.
\<close>

definition containerOf :: "ObjectType \<Rightarrow> Store \<Rightarrow> Container" where
  "containerOf ot s =
     (case ot of PLATFORM \<Rightarrow> platforms s | BEAM \<Rightarrow> beams s | GATE \<Rightarrow> gates s
      | LASER \<Rightarrow> lasers s | PROJECTOR \<Rightarrow> projectors s | LOB_GROUP \<Rightarrow> lobGroups s
      | CUSTOM_RENDERING \<Rightarrow> customRenderings s | _ \<Rightarrow> [])"

definition setContainer :: "ObjectType \<Rightarrow> Container \<Rightarrow> Store \<Rightarrow> Store" where
  "setContainer ot c s =
     (case ot of PLATFORM \<Rightarrow> s\<lparr>platforms := c\<rparr> | BEAM \<Rightarrow> s\<lparr>beams := c\<rparr> | GATE \<Rightarrow> s\<lparr>gates := c\<rparr>
      | LASER \<Rightarrow> s\<lparr>lasers := c\<rparr> | PROJECTOR \<Rightarrow> s\<lparr>projectors := c\<rparr>
      | LOB_GROUP \<Rightarrow> s\<lparr>lobGroups := c\<rparr> | CUSTOM_RENDERING \<Rightarrow> s\<lparr>customRenderings := c\<rparr>
      | _ \<Rightarrow> s)"

definition defaultPrefsOf :: "ObjectType \<Rightarrow> Store \<Rightarrow> Prefs" where
  "defaultPrefsOf ot s =
     (case ot of PLATFORM \<Rightarrow> defaultPlatformPrefs s | BEAM \<Rightarrow> defaultBeamPrefs s
      | GATE \<Rightarrow> defaultGatePrefs s | LASER \<Rightarrow> defaultLaserPrefs s
      | PROJECTOR \<Rightarrow> defaultProjectorPrefs s | LOB_GROUP \<Rightarrow> defaultLobGroupPrefs s
      | _ \<Rightarrow> defaultCustomRenderingPrefs s)"

text \<open>Assignment to a key of a \<^verbatim>\<open>std::map\<close>: the value replaces the old one or is put in key order.\<close>

definition insertKey :: "ObjectId \<Rightarrow> 'a \<Rightarrow> (ObjectId \<times> 'a) list \<Rightarrow> (ObjectId \<times> 'a) list" where
  "insertKey k v m = filter (\<lambda>p. fst p < k) m @ [(k, v)] @ filter (\<lambda>p. k < fst p) m"

text \<open>
  What a transaction holds for the caller to fill in or change: the new entry, the copy
  of the preferences or of the properties, the new sample, command or sparse data point.
\<close>

datatype Scratch =
  ScratchNone
  | ScratchEntry Entry
  | ScratchPrefs Prefs
  | ScratchProperties Properties
  | ScratchUpdate Update
  | ScratchCommand Command
  | ScratchPoint "real \<times> nat"

text \<open>
  The implementation behind a transaction and the entity it is bound to. A settings
  transaction points to the preferences of the entry under a key and carries the id read
  from the entry's properties.
\<close>

datatype TransactionImpl =
  NullTransactionImpl
  | NewEntryTransactionImpl ObjectType ObjectId
  | MutableSettingsTransactionImpl ObjectType ObjectId ObjectId
  | MutablePropertyTransactionImpl ObjectType ObjectId
  | NewUpdateTransactionImpl ObjectType ObjectId
  | NewCommandTransactionImpl ObjectType ObjectId
  | NewGenericDataTransactionImpl ObjectId
  | NewCategoryDataTransactionImpl ObjectId

record Transaction =
  impl :: TransactionImpl
  committed :: bool
  notified :: bool
  nameChange :: bool
  oldName :: string
  newName :: string
  scratch :: Scratch

definition newTransaction :: "TransactionImpl \<Rightarrow> Scratch \<Rightarrow> Transaction" where
  "newTransaction k sc = \<lparr>impl = k, committed = False, notified = False, nameChange = False,
     oldName = [], newName = [], scratch = sc\<rparr>"

definition newEntry :: "ObjectId \<Rightarrow> Entry" where
  "newEntry i = \<lparr>properties = \<lparr>pid = i, hostid = None, ptype = ABSOLUTE_POSITION, originalid = 0\<rparr>,
     preferences = \<lparr>commonprefs = \<lparr>name = [], aliasName = [], usealias = False, datadraw = False,
         datalimitpoints = 0, datalimittime = 0\<rparr>,
       interpolate = False, targetid = None, maxdatapoints = 0, maxdataseconds = 0\<rparr>,
     updates = emptySlice, commands = []\<rparr>"

text \<open>
  \<^verbatim>\<open>addPlatform\<close>, \<^verbatim>\<open>addBeam\<close>, ...: a fresh id, the staged entry, and the name of the
  default preferences entered in the name cache.
\<close>

definition addEntity :: "ObjectType \<Rightarrow> Store \<Rightarrow> Transaction \<times> Store" where
  "addEntity ot s =
     (let i = baseId s + 1
      in (newTransaction (NewEntryTransactionImpl ot i) (ScratchEntry (newEntry i)),
          s\<lparr>baseId := i,
            entityNameCache := entityNameCache s @ [(name (commonprefs (defaultPrefsOf ot s)), i, ot)]\<rparr>))"

text \<open>
  The mutable accessors: \<open>None\<close> is the null pointer returned for an id not found.
  Custom renderings have commands and no updates.
\<close>

definition mutablePrefs :: "ObjectType \<Rightarrow> ObjectId \<Rightarrow> Store \<Rightarrow> Transaction option" where
  "mutablePrefs ot i s =
     (case map_of (containerOf ot s) i of
        None \<Rightarrow> None
      | Some e \<Rightarrow> Some (newTransaction (MutableSettingsTransactionImpl ot i (pid (properties e)))
                         (ScratchPrefs (preferences e))))"

definition mutableProperties :: "ObjectType \<Rightarrow> ObjectId \<Rightarrow> Store \<Rightarrow> Transaction option" where
  "mutableProperties ot i s =
     (case map_of (containerOf ot s) i of
        None \<Rightarrow> None
      | Some e \<Rightarrow> Some (newTransaction (MutablePropertyTransactionImpl ot i)
                         (ScratchProperties (properties e))))"

definition addUpdate :: "ObjectType \<Rightarrow> ObjectId \<Rightarrow> Store \<Rightarrow> Transaction option" where
  "addUpdate ot i s =
     (case map_of (if ot = CUSTOM_RENDERING then [] else containerOf ot s) i of
        None \<Rightarrow> None
      | Some e \<Rightarrow> Some (newTransaction (NewUpdateTransactionImpl ot i) (ScratchUpdate emptyUpdate)))"

definition addCommand :: "ObjectType \<Rightarrow> ObjectId \<Rightarrow> Store \<Rightarrow> Transaction option" where
  "addCommand ot i s =
     (case map_of (containerOf ot s) i of
        None \<Rightarrow> None
      | Some e \<Rightarrow> Some (newTransaction (NewCommandTransactionImpl ot i)
                         (ScratchCommand \<lparr>ctime = 0, updateprefs = preferences (newEntry i)\<rparr>)))"

definition addGenericData :: "ObjectId \<Rightarrow> Store \<Rightarrow> Transaction option" where
  "addGenericData i s =
     (case map_of (genericData s) i of
        None \<Rightarrow> None
      | Some g \<Rightarrow> Some (newTransaction (NewGenericDataTransactionImpl i) (ScratchPoint (0, 0))))"

definition addCategoryData :: "ObjectId \<Rightarrow> Store \<Rightarrow> Transaction option" where
  "addCategoryData i s =
     (case map_of (categoryData s) i of
        None \<Rightarrow> None
      | Some g \<Rightarrow> Some (newTransaction (NewCategoryDataTransactionImpl i) (ScratchPoint (0, 0))))"

text \<open>The mutation accessors, and the transaction each opens.\<close>

datatype Accessor =
  AddEntity ObjectType
  | MutableProperties ObjectType ObjectId
  | MutablePrefs ObjectType ObjectId
  | AddUpdate ObjectType ObjectId
  | AddCommand ObjectType ObjectId
  | AddGenericData ObjectId
  | AddCategoryData ObjectId

definition openTransaction :: "Accessor \<Rightarrow> Store \<Rightarrow> (Transaction \<times> Store) option" where
  "openTransaction a s =
     (case a of
        AddEntity ot \<Rightarrow> Some (addEntity ot s)
      | MutableProperties ot i \<Rightarrow> map_option (\<lambda>t. (t, s)) (mutableProperties ot i s)
      | MutablePrefs ot i \<Rightarrow> map_option (\<lambda>t. (t, s)) (mutablePrefs ot i s)
      | AddUpdate ot i \<Rightarrow> map_option (\<lambda>t. (t, s)) (addUpdate ot i s)
      | AddCommand ot i \<Rightarrow> map_option (\<lambda>t. (t, s)) (addCommand ot i s)
      | AddGenericData i \<Rightarrow> map_option (\<lambda>t. (t, s)) (addGenericData i s)
      | AddCategoryData i \<Rightarrow> map_option (\<lambda>t. (t, s)) (addCategoryData i s))"

text \<open>\<^verbatim>\<open>dataLimit_\<close> on an entry and \<^verbatim>\<open>applyDataLimiting_\<close>.\<close>

definition dataLimit :: "Ext \<Rightarrow> CommonPrefs \<Rightarrow> Entry \<Rightarrow> Entry" where
  "dataLimit x prefs e = e\<lparr>updates := sliceLimit x prefs (updates e),
     commands := commandsLimit x prefs (commands e)\<rparr>"

definition applyDataLimiting :: "Ext \<Rightarrow> ObjectId \<Rightarrow> Store \<Rightarrow> Store" where
  "applyDataLimiting x i s =
     (if \<not> dataLimiting s then s
      else case commonPrefs s i of
        None \<Rightarrow> s
      | Some prefs \<Rightarrow>
          (let ot = objectType s i;
               s1 = setContainer ot
                      (map (\<lambda>p. if fst p = i then (fst p, dataLimit x prefs (snd p)) else p)
                         (containerOf ot s)) s
           in s1\<lparr>genericData := map (\<lambda>p. if fst p = i then (fst p, sparseLimit x prefs (snd p)) else p)
                     (genericData s1),
                categoryData := map (\<lambda>p. if fst p = i then (fst p, sparseLimit x prefs (snd p)) else p)
                     (categoryData s1)\<rparr>))"

text \<open>
  Modelled from the spec: the name cache's \<^verbatim>\<open>nameChange(newName, oldName, id)\<close> is
  outside the sources at hand; the cached name of the id is replaced.
\<close>

definition nameCacheChange :: "string \<Rightarrow> string \<Rightarrow> ObjectId
    \<Rightarrow> (string \<times> ObjectId \<times> ObjectType) list \<Rightarrow> (string \<times> ObjectId \<times> ObjectType) list" where
  "nameCacheChange new old i c =
     map (\<lambda>e. if fst e = old \<and> fst (snd e) = i then (new, snd e) else e) c"

text \<open>\<^verbatim>\<open>MutableSettingsTransactionImpl::commit\<close> on the preferences of an entry.\<close>

definition commitSettings :: "Ext \<Rightarrow> ObjectType \<Rightarrow> ObjectId \<Rightarrow> ObjectId \<Rightarrow> Prefs \<Rightarrow> Transaction
    \<Rightarrow> Store \<Rightarrow> Transaction \<times> Store" where
  "commitSettings x ot k i modifiedSettings t s =
     (case map_of (containerOf ot s) k of
        None \<Rightarrow> (t, s)
      | Some e \<Rightarrow>
          (let currentSettings = preferences e in
           if modifiedSettings \<noteq> currentSettings then
             (let useAlias = usealias (commonprefs modifiedSettings);
                  useAliasChanged = (useAlias \<noteq> usealias (commonprefs currentSettings));
                  nameChanged = (name (commonprefs modifiedSettings) \<noteq> name (commonprefs currentSettings));
                  aliasChanged = (useAlias \<and> aliasName (commonprefs modifiedSettings)
                                     \<noteq> aliasName (commonprefs currentSettings));
                  t1 = t\<lparr>committed := True\<rparr>;
                  t2 = (if nameChanged \<or> aliasChanged \<or> useAliasChanged
                        then t1\<lparr>oldName := name (commonprefs currentSettings),
                               newName := name (commonprefs modifiedSettings), nameChange := True\<rparr>
                        else t1);
                  s1 = setContainer ot
                         (map (\<lambda>p. if fst p = k then (fst p, (snd p)\<lparr>preferences := modifiedSettings\<rparr>) else p)
                            (containerOf ot s)) s
              in (t2, (applyDataLimiting x i s1)\<lparr>hasChanged := True\<rparr>))
           else (t, s)))"

text \<open>\<^verbatim>\<open>MutablePropertyTransactionImpl::commit\<close>.\<close>

definition commitProperties :: "ObjectType \<Rightarrow> ObjectId \<Rightarrow> Properties \<Rightarrow> Transaction \<Rightarrow> Store
    \<Rightarrow> Transaction \<times> Store" where
  "commitProperties ot i modifiedProperties t s =
     (case map_of (containerOf ot s) i of
        None \<Rightarrow> (t, s)
      | Some e \<Rightarrow>
          if modifiedProperties \<noteq> properties e then
            (t\<lparr>committed := True\<rparr>,
             (setContainer ot
                (map (\<lambda>p. if fst p = i then (fst p, (snd p)\<lparr>properties := modifiedProperties\<rparr>) else p)
                   (containerOf ot s)) s)\<lparr>hasChanged := True\<rparr>)
          else (t, s))"

text \<open>\<^verbatim>\<open>NewEntryTransactionImpl::commit\<close>.\<close>

definition commitEntry :: "ObjectType \<Rightarrow> Entry \<Rightarrow> Transaction \<Rightarrow> Store \<Rightarrow> Transaction \<times> Store" where
  "commitEntry ot e t s =
     (if committed t then (t, s)
      else
        (let e1 = e\<lparr>preferences := defaultPrefsOf ot s\<rparr>;
             i = pid (properties e1);
             s1 = setContainer ot (insertKey i e1 (containerOf ot s)) s
         in (t\<lparr>committed := True, scratch := ScratchEntry e1\<rparr>,
             s1\<lparr>genericData := insertKey i [] (genericData s1),
                categoryData := insertKey i [] (categoryData s1),
                hasChanged := True\<rparr>)))"

text \<open>
  Modelled from the spec: the slices' \<^verbatim>\<open>insert\<close> is outside the sources at hand; a
  sorted insert that keeps the samples ordered by time, the new sample going before the
  first one with a later time.
\<close>

fun insertSample :: "Update \<Rightarrow> Update list \<Rightarrow> Update list" where
  "insertSample u [] = [u]"
| "insertSample u (v # vs) =
     (if doubleLess (utime u) (utime v) then u # v # vs else v # insertSample u vs)"

text \<open>\<^verbatim>\<open>NewUpdateTransactionImpl::commit\<close> for a sample of an update slice.\<close>

definition commitUpdate :: "Ext \<Rightarrow> ObjectType \<Rightarrow> ObjectId \<Rightarrow> Update \<Rightarrow> Transaction \<Rightarrow> Store
    \<Rightarrow> Transaction \<times> Store" where
  "commitUpdate x ot i u t s =
     (if committed t then (t, s)
      else
        (let lim = (\<lambda>sl. if dataLimiting s
                         then (case commonPrefs s i of None \<Rightarrow> sl | Some prefs \<Rightarrow> sliceLimit x prefs sl)
                         else sl);
             s1 = setContainer ot
                    (map (\<lambda>p. if fst p = i
                               then (fst p, (snd p)\<lparr>updates :=
                                      lim ((updates (snd p))\<lparr>items := insertSample u (items (updates (snd p)))\<rparr>)\<rparr>)
                               else p) (containerOf ot s)) s
         in (t\<lparr>committed := True\<rparr>,
             s1\<lparr>hasChanged := True, newUpdatesTrace := newUpdatesTrace s1 @ [NUEntityUpdate i (utime u)]\<rparr>)))"

text \<open>The same for a command, which is no entity update.\<close>

definition commitCommand :: "Ext \<Rightarrow> ObjectType \<Rightarrow> ObjectId \<Rightarrow> Command \<Rightarrow> Transaction \<Rightarrow> Store
    \<Rightarrow> Transaction \<times> Store" where
  "commitCommand x ot i c t s =
     (if committed t then (t, s)
      else
        (let lim = (\<lambda>cs. if dataLimiting s
                         then (case commonPrefs s i of None \<Rightarrow> cs | Some prefs \<Rightarrow> commandsLimit x prefs cs)
                         else cs);
             s1 = setContainer ot
                    (map (\<lambda>p. if fst p = i
                               then (fst p, (snd p)\<lparr>commands := lim (insort_key ctime c (commands (snd p)))\<rparr>)
                               else p) (containerOf ot s)) s
         in (t\<lparr>committed := True\<rparr>, s1\<lparr>hasChanged := True\<rparr>)))"

text \<open>
  The same for a generic data point: the scenario's slice (id 0) is limited by the
  scenario properties, an entity's slice by the entity's common preferences.
\<close>

definition commitGenericData :: "Ext \<Rightarrow> ObjectId \<Rightarrow> real \<times> nat \<Rightarrow> Transaction \<Rightarrow> Store
    \<Rightarrow> Transaction \<times> Store" where
  "commitGenericData x i r t s =
     (if committed t then (t, s)
      else
        (let ign = (dataLimiting s \<and> ignoreduplicategenericdata (scenarioProperties s));
             lim = (\<lambda>g. if dataLimiting s then
                          (if i = 0 then
                             sparseLimit x \<lparr>name = [], aliasName = [], usealias = False, datadraw = False,
                                 datalimitpoints = scenarioDatalimitpoints (scenarioProperties s),
                                 datalimittime = scenarioDatalimittime (scenarioProperties s)\<rparr> g
                           else (case commonPrefs s i of None \<Rightarrow> g | Some prefs \<Rightarrow> sparseLimit x prefs g))
                        else g)
         in (t\<lparr>committed := True\<rparr>,
             s\<lparr>genericData := map (\<lambda>p. if fst p = i then (fst p, lim (genericInsert x ign r (snd p))) else p)
                    (genericData s),
               hasChanged := True\<rparr>)))"

definition commitCategoryData :: "Ext \<Rightarrow> ObjectId \<Rightarrow> real \<times> nat \<Rightarrow> Transaction \<Rightarrow> Store
    \<Rightarrow> Transaction \<times> Store" where
  "commitCategoryData x i r t s =
     (if committed t then (t, s)
      else
        (let lim = (\<lambda>g. if dataLimiting s
                        then (case commonPrefs s i of None \<Rightarrow> g | Some prefs \<Rightarrow> sparseLimit x prefs g)
                        else g)
         in (t\<lparr>committed := True\<rparr>,
             s\<lparr>categoryData := map (\<lambda>p. if fst p = i then (fst p, lim (insort_key fst r (snd p))) else p)
                    (categoryData s),
               hasChanged := True\<rparr>)))"

text \<open>\<^verbatim>\<open>commit\<close> of a transaction, by implementation and by what it holds.\<close>

definition commit :: "Ext \<Rightarrow> Transaction \<Rightarrow> Store \<Rightarrow> Transaction \<times> Store" where
  "commit x t s =
     (case (impl t, scratch t) of
        (NewEntryTransactionImpl ot i, ScratchEntry e) \<Rightarrow> commitEntry ot e t s
      | (MutableSettingsTransactionImpl ot k i, ScratchPrefs m) \<Rightarrow> commitSettings x ot k i m t s
      | (MutablePropertyTransactionImpl ot i, ScratchProperties m) \<Rightarrow> commitProperties ot i m t s
      | (NewUpdateTransactionImpl ot i, ScratchUpdate u) \<Rightarrow> commitUpdate x ot i u t s
      | (NewCommandTransactionImpl ot i, ScratchCommand c) \<Rightarrow> commitCommand x ot i c t s
      | (NewGenericDataTransactionImpl i, ScratchPoint r) \<Rightarrow> commitGenericData x i r t s
      | (NewCategoryDataTransactionImpl i, ScratchPoint r) \<Rightarrow> commitCategoryData x i r t s
      | _ \<Rightarrow> (t, s))"

text \<open>
  \<^verbatim>\<open>release\<close>. The new-entry, settings and properties transactions notify once when
  committed; an uncommitted transaction only deletes what it holds.
\<close>

definition release :: "Ext \<Rightarrow> Transaction \<Rightarrow> Store \<Rightarrow> Transaction \<times> Store" where
  "release x t s =
     (case impl t of
        NewEntryTransactionImpl ot i \<Rightarrow>
          if \<not> committed t then (t\<lparr>scratch := ScratchNone\<rparr>, s)
          else if \<not> notified t
          then (let j = (case scratch t of ScratchEntry e \<Rightarrow> pid (properties e) | _ \<Rightarrow> i)
                in (t\<lparr>notified := True\<rparr>, dispatch x [OnAddEntity j (objectType s j)] s))
          else (t, s)
      | MutableSettingsTransactionImpl ot k i \<Rightarrow>
          if committed t \<and> \<not> notified t then
            (let s1 = (if nameChange t \<and> oldName t \<noteq> newName t
                       then s\<lparr>entityNameCache := nameCacheChange (newName t) (oldName t) i (entityNameCache s)\<rparr>
                       else s)
             in (t\<lparr>notified := True\<rparr>,
                 dispatch x (if nameChange t then [OnPrefsChange i, OnNameChange i] else [OnPrefsChange i]) s1))
          else (t, s)
      | MutablePropertyTransactionImpl ot i \<Rightarrow>
          if committed t \<and> \<not> notified t
          then (t\<lparr>notified := True\<rparr>, dispatch x [OnPropertiesChange i] s)
          else (t, s)
      | NullTransactionImpl \<Rightarrow> (t, s)
      | _ \<Rightarrow> if \<not> committed t then (t\<lparr>scratch := ScratchNone\<rparr>, s) else (t, s))"

text \<open>The destructor of a transaction: \<open>release\<close>, then the transaction is gone.\<close>

definition destroy :: "Ext \<Rightarrow> Transaction \<Rightarrow> Store \<Rightarrow> Store" where
  "destroy x t s = snd (release x t s)"

text \<open>
  Modelled from the spec: the name cache's \<^verbatim>\<open>getEntries(name, type, entries)\<close> is outside
  the sources at hand; the entries under the name whose type is the one asked for, every
  type for \<^verbatim>\<open>simData::ALL\<close>. \<^verbatim>\<open>idListByName\<close> returns their ids.
\<close>

definition idListByName :: "Store \<Rightarrow> string \<Rightarrow> ObjectType \<Rightarrow> ObjectId list" where
  "idListByName s n ty =
     map (\<lambda>e. fst (snd e))
       (filter (\<lambda>e. fst e = n \<and> (ty = ALL_TYPES \<or> snd (snd e) = ty)) (entityNameCache s))"

text \<open>
  The state the accessors of the store show: the containers with their ids, properties,
  preferences and slices, the generic and category data, and the name index that
  \<open>idListByName\<close> reads.
\<close>

definition observable :: "Store \<Rightarrow> Container list \<times> (ObjectId \<times> SparseSlice) list
    \<times> (ObjectId \<times> SparseSlice) list \<times> (string \<times> ObjectId \<times> ObjectType) list" where
  "observable s = (ents s, genericData s, categoryData s, entityNameCache s)"

section \<open>Concrete externals and stores for evaluation\<close>

text \<open>The latest sample at or before a time, as an exact lookup finds it.\<close>

definition lookupAt :: "Double \<Rightarrow> Update list \<Rightarrow> Update option" where
  "lookupAt t us = (case filter (\<lambda>u. doubleLessEq (utime u) t) us of [] \<Rightarrow> None | v # vs \<Rightarrow> Some (last (v # vs)))"

text \<open>
  Listeners that do nothing, command slices without effect, slices that look the
  sample up without interpolating and whose empty time bounds are the largest double and
  its negative, sparse slices that never change, no limiting.
\<close>

definition quietExt :: Ext where
  "quietExt = \<lparr>
     callback = (\<lambda>l ev s. s),
     commandsUpdate = (\<lambda>i t cs p. (cs, p)),
     sliceUpdate = (\<lambda>t sl. sl\<lparr>current := lookupAt t (items sl)\<rparr>),
     sliceUpdateInterp = (\<lambda>t sl. sl\<lparr>current := lookupAt t (items sl)\<rparr>),
     genericUpdate = (\<lambda>t g. g),
     categoryUpdate = (\<lambda>t c. (c, False)),
     sliceLimit = (\<lambda>p sl. sl),
     commandsLimit = (\<lambda>p cs. cs),
     sparseLimit = (\<lambda>p g. g),
     firstTime = (\<lambda>sl. case items sl of [] \<Rightarrow> Num dblMax | u # us \<Rightarrow> utime u),
     lastTime = (\<lambda>sl. case items sl of [] \<Rightarrow> Num (- dblMax) | u # us \<Rightarrow> utime (last (u # us))),
     lobUpdate = (\<lambda>n d t sl. sl\<lparr>current := lookupAt t (items sl)\<rparr>),
     genericInsert = (\<lambda>ign r g. insort_key fst r g),
     debugBuild = False\<rparr>"

definition plainPrefs :: Prefs where
  "plainPrefs = \<lparr>commonprefs = \<lparr>name = ''e'', aliasName = ''a'', usealias = False, datadraw = True,
       datalimitpoints = 0, datalimittime = 0\<rparr>,
     interpolate = False, targetid = None, maxdatapoints = 0, maxdataseconds = 0\<rparr>"

definition mkEntry :: "ObjectId \<Rightarrow> ObjectId option \<Rightarrow> EntityKind \<Rightarrow> Entry" where
  "mkEntry i h k = \<lparr>properties = \<lparr>pid = i, hostid = h, ptype = k, originalid = 0\<rparr>,
     preferences = plainPrefs, updates = emptySlice, commands = []\<rparr>"

text \<open>The store as the constructor leaves it (scenario generic data under id 0).\<close>

definition newStore :: Store where
  "newStore = \<lparr>baseId = 0,
     scenarioProperties = \<lparr>scenarioDatalimitpoints = 0, scenarioDatalimittime = 0,
       ignoreduplicategenericdata = False\<rparr>,
     lastUpdateTime = Num 0, hasChanged = False, interpolationEnabled = False,
     interpolator = None, dataLimiting = False, boundClock = None,
     platforms = [], beams = [], gates = [], lasers = [], projectors = [], lobGroups = [],
     customRenderings = [], genericData = [(0, [])], categoryData = [], dataTables = [],
     entityNameCache = [],
     defaultPlatformPrefs = plainPrefs, defaultBeamPrefs = plainPrefs, defaultGatePrefs = plainPrefs,
     defaultLaserPrefs = plainPrefs, defaultLobGroupPrefs = plainPrefs,
     defaultProjectorPrefs = plainPrefs, defaultCustomRenderingPrefs = plainPrefs,
     listeners = [], justRemoved = [], trace = [], newUpdatesTrace = []\<rparr>"

text \<open>
  Platform 1 with beam 2, laser 4 and projector 5, gate 3 on the beam; platform 6 with
  beam 7 and gate 8 on that beam; one listener.
\<close>

definition familyStore :: Store where
  "familyStore = newStore\<lparr>baseId := 8, hasChanged := True,
     platforms := [(1, mkEntry 1 None ABSOLUTE_POSITION), (6, mkEntry 6 None ABSOLUTE_POSITION)],
     beams := [(2, mkEntry 2 (Some 1) ABSOLUTE_POSITION), (7, mkEntry 7 (Some 6) ABSOLUTE_POSITION)],
     gates := [(3, mkEntry 3 (Some 2) ABSOLUTE_POSITION), (8, mkEntry 8 (Some 7) ABSOLUTE_POSITION)],
     lasers := [(4, mkEntry 4 (Some 1) ABSOLUTE_POSITION)],
     projectors := [(5, mkEntry 5 (Some 1) ABSOLUTE_POSITION)],
     listeners := [10]\<rparr>"

text \<open>Platform 1 with beam 2, and laser 3 whose host id names the beam.\<close>

definition laserOnBeamStore :: Store where
  "laserOnBeamStore = newStore\<lparr>baseId := 3, hasChanged := True,
     platforms := [(1, mkEntry 1 None ABSOLUTE_POSITION)],
     beams := [(2, mkEntry 2 (Some 1) ABSOLUTE_POSITION)],
     lasers := [(3, mkEntry 3 (Some 2) ABSOLUTE_POSITION)]\<rparr>"

text \<open>What is left of it after the platform is removed.\<close>

definition laserOnBeamStoreAfter :: Store where
  "laserOnBeamStoreAfter = newStore\<lparr>baseId := 3, hasChanged := True,
     platforms := [], beams := [],
     lasers := [(3, mkEntry 3 (Some 2) ABSOLUTE_POSITION)]\<rparr>"

section \<open>Statements about an update pass\<close>




text \<open>
  The commands of an entry applied at \<open>t\<close>: the id and the properties stay, the
  commands and the preferences are what the command slice's update makes of them.
\<close>

definition commandsApplied :: "Ext \<Rightarrow> Double \<Rightarrow> ObjectId \<times> Entry \<Rightarrow> ObjectId \<times> Entry \<Rightarrow> bool" where
  "commandsApplied x t p q =
     (fst q = fst p \<and> properties (snd q) = properties (snd p)
      \<and> commands (snd q) = fst (commandsUpdate x (fst p) t (commands (snd p)) (preferences (snd p)))
      \<and> preferences (snd q) = snd (commandsUpdate x (fst p) t (commands (snd p)) (preferences (snd p))))"

text \<open>
  What an update at \<open>t\<close> makes of a platform entry \<open>p\<close>: the commands are applied;
  then, when datadraw is on and the store is in file mode, the slice loses its current
  sample if the platform is not static (\<open>firstTime\<close> is not \<open>-1\<close>) and \<open>t\<close> is before
  \<open>firstTime\<close> or after \<open>lastTime\<close>, and otherwise (a static platform, a time within
  the bounds) is the slice's interpolated update when interpolation is enabled and the
  platform's interpolation preference is set, its plain update when not.
\<close>

definition platformUpdated :: "Ext \<Rightarrow> Store \<Rightarrow> Double \<Rightarrow> ObjectId \<times> Entry \<Rightarrow> ObjectId \<times> Entry \<Rightarrow> bool" where
  "platformUpdated x s t p q =
     (commandsApplied x t p q
      \<and> (datadraw (commonprefs (preferences (snd q))) \<and> fileMode s \<longrightarrow>
           (if \<not> doubleEq (firstTime x (updates (snd p))) (Num (- 1))
               \<and> (doubleLess t (firstTime x (updates (snd p)))
                    \<or> doubleLess (lastTime x (updates (snd p))) t)
            then updates (snd q) = (updates (snd p))\<lparr>current := None\<rparr>
            else if isInterpolationEnabled s \<and> interpolate (preferences (snd q))
            then updates (snd q) = sliceUpdateInterp x t (updates (snd p))
            else updates (snd q) = sliceUpdate x t (updates (snd p)))))"

text \<open>
  What an update at \<open>t\<close> makes of a projector entry: the commands are applied, then
  the slice is updated by the interpolated or by the plain lookup, the plain one when
  the projector's interpolation preference is off. The datadraw preference is not read.
\<close>

definition projectorUpdated :: "Ext \<Rightarrow> Double \<Rightarrow> ObjectId \<times> Entry \<Rightarrow> ObjectId \<times> Entry \<Rightarrow> bool" where
  "projectorUpdated x t p q =
     (commandsApplied x t p q
      \<and> (updates (snd q) = sliceUpdateInterp x t (updates (snd p))
          \<or> updates (snd q) = sliceUpdate x t (updates (snd p)))
      \<and> (\<not> interpolate (preferences (snd q))
           \<longrightarrow> updates (snd q) = sliceUpdate x t (updates (snd p))))"

text \<open>Platform 1 with one sample at time 5, at position (1, 2, 3); one listener.\<close>

definition sampleAt :: "real \<Rightarrow> Update" where
  "sampleAt t = emptyUpdate\<lparr>utime := Num t, position := Some (1, 2, 3)\<rparr>"

definition trackedPlatform :: Entry where
  "trackedPlatform = (mkEntry 1 None ABSOLUTE_POSITION)\<lparr>updates := emptySlice\<lparr>items := [sampleAt 5]\<rparr>\<rparr>"

definition trackStore :: Store where
  "trackStore = newStore\<lparr>baseId := 1, hasChanged := True,
     platforms := [(1, trackedPlatform)], listeners := [10]\<rparr>"

text \<open>The platform holding the sample of time 5 as its current one.\<close>

definition heldPlatform :: Entry where
  "heldPlatform = trackedPlatform\<lparr>updates := (updates trackedPlatform)\<lparr>current := Some (sampleAt 5)\<rparr>\<rparr>"

text \<open>
  The store of platform 1 bound to a clock in live mode, after an update at time 6: in
  live mode the platform does not expire and holds its latest sample.
\<close>

definition liveUpdatedStore :: Store where
  "liveUpdatedStore = trackStore\<lparr>boundClock := Some True, lastUpdateTime := Num 6,
     hasChanged := False, platforms := [(1, heldPlatform)], trace := [(10, OnChange)]\<rparr>"




text \<open>Preferences with datadraw off.\<close>

definition hiddenPrefs :: Prefs where
  "hiddenPrefs = plainPrefs\<lparr>commonprefs := (commonprefs plainPrefs)\<lparr>datadraw := False\<rparr>\<rparr>"

text \<open>
  Command slices that apply, in order, the preferences of the commands at or before
  the time of the update; all else as in \<open>quietExt\<close>.
\<close>

definition commandExt :: Ext where
  "commandExt = quietExt\<lparr>commandsUpdate :=
     (\<lambda>i t cs p. (cs, fold (\<lambda>c q. if doubleLessEq (Num (ctime c)) t then updateprefs c else q) cs p))\<rparr>"

text \<open>
  An entry with datadraw on that holds an old sample as its current one, has a sample
  at time 5 and a command at time 2 that switches datadraw off.
\<close>

definition commandedEntry :: "ObjectId \<Rightarrow> Entry" where
  "commandedEntry i = (mkEntry i (Some 1) ABSOLUTE_POSITION)\<lparr>
     updates := emptySlice\<lparr>items := [sampleAt 5], current := Some (sampleAt 4)\<rparr>,
     commands := [\<lparr>ctime = 2, updateprefs = hiddenPrefs\<rparr>]\<rparr>"

text \<open>
  Platform 1 with datadraw off, holding the sample of time 5 as its current one, and a
  command at time 2 that switches datadraw on; one listener.
\<close>

definition switchedOnPlatform :: Entry where
  "switchedOnPlatform = heldPlatform\<lparr>preferences := hiddenPrefs,
     commands := [\<lparr>ctime = 2, updateprefs = plainPrefs\<rparr>]\<rparr>"

definition switchedOnStore :: Store where
  "switchedOnStore = trackStore\<lparr>platforms := [(1, switchedOnPlatform)]\<rparr>"

text \<open>Platform 1 with laser 2 and projector 3, both such entries.\<close>

definition commandedStore :: Store where
  "commandedStore = newStore\<lparr>baseId := 3, hasChanged := True,
     platforms := [(1, mkEntry 1 None ABSOLUTE_POSITION)],
     lasers := [(2, commandedEntry 2)],
     projectors := [(3, commandedEntry 3)]\<rparr>"

text \<open>
  The store of platform 1 after \<^verbatim>\<open>addBeam\<close>: the id 2 is taken and the default name of a
  beam is in the name index under it.
\<close>

definition beamAddedStore :: Store where
  "beamAddedStore = trackStore\<lparr>baseId := 2, entityNameCache := [(''e'', 2, BEAM)]\<rparr>"

section \<open>Target gates and their host beams\<close>

text \<open>
  The configurations that break what a target gate needs of its host: no host id, a
  host id that is no beam's, a host beam that is not a target beam, or a host beam
  without host id or target id.
\<close>

definition gateHostViolation :: "Store \<Rightarrow> Entry \<Rightarrow> bool" where
  "gateHostViolation s gate =
     (case hostid (properties gate) of
        None \<Rightarrow> True
      | Some gh \<Rightarrow>
          (case getBeamForGate s gh of
             None \<Rightarrow> True
           | Some beam \<Rightarrow> hostid (properties beam) = None \<or> ptype (properties beam) \<noteq> TARGET
                          \<or> targetid (preferences beam) = None))"

text \<open>The host beam of a gate, when its host id is a beam's.\<close>

definition hostBeam :: "Store \<Rightarrow> Entry \<Rightarrow> Entry option" where
  "hostBeam s gate =
     (case hostid (properties gate) of None \<Rightarrow> None | Some gh \<Rightarrow> getBeamForGate s gh)"

text \<open>The externals of \<open>quietExt\<close> with assertions compiled in.\<close>

definition debugExt :: Ext where
  "debugExt = quietExt\<lparr>debugBuild := True\<rparr>"

text \<open>
  Target gate 4 on beam 3 and still holding a current sample; the beam is a target
  beam on platform 1 without target id.
\<close>

definition staleGate :: Entry where
  "staleGate = (mkEntry 4 (Some 3) TARGET)\<lparr>updates := emptySlice\<lparr>current := Some (sampleAt 4)\<rparr>\<rparr>"

definition aimlessBeamStore :: Store where
  "aimlessBeamStore = newStore\<lparr>baseId := 4, hasChanged := True,
     platforms := [(1, (mkEntry 1 None ABSOLUTE_POSITION)\<lparr>updates := emptySlice\<lparr>items := [sampleAt 5]\<rparr>\<rparr>)],
     beams := [(3, mkEntry 3 (Some 1) TARGET)],
     gates := [(4, staleGate)]\<rparr>"

text \<open>The same gate on a beam that is not a target beam.\<close>

definition plainBeamStore :: Store where
  "plainBeamStore = aimlessBeamStore\<lparr>beams := [(3, mkEntry 3 (Some 1) BODY_RELATIVE)]\<rparr>"

text \<open>The same gate, its host id no beam's.\<close>

definition noBeamStore :: Store where
  "noBeamStore = aimlessBeamStore\<lparr>beams := []\<rparr>"

section \<open>A listener that removes a peer and flushes\<close>

definition FLUSH_UPDATES :: FlushFields where
  "FLUSH_UPDATES = \<lparr>flushUpdates = True, flushCommands = False, flushCategoryData = False,
     flushGenericData = False, flushDataTables = False, flushExcludeMinusOne = False\<rparr>"

text \<open>
  Listener 1 answers \<^verbatim>\<open>onChange\<close> with \<^verbatim>\<open>removeListener\<close> of listener 2 followed by
  \<^verbatim>\<open>flush(0, FLUSH_NONRECURSIVE, FLUSH_UPDATES)\<close>; no listener does anything on another
  callback, \<^verbatim>\<open>onFlush\<close> included.
\<close>

definition meddlingExt :: Ext where
  "meddlingExt = quietExt\<lparr>callback :=
     (\<lambda>l ev s. if l = 1 \<and> ev = OnChange
                then snd (flush quietExt 0 FLUSH_NONRECURSIVE FLUSH_UPDATES (removeListener 2 s))
                else s)\<rparr>"

text \<open>The store with platform 1 and its sample at time 5, listeners 1 and 2 registered.\<close>

definition twoListenerStore :: Store where
  "twoListenerStore = trackStore\<lparr>listeners := [1, 2]\<rparr>"

text \<open>The store an update at time 5 leaves, listener 1 meddling.\<close>

definition meddledStore :: Store where
  "meddledStore = twoListenerStore\<lparr>
     lastUpdateTime := Num 5, hasChanged := True,
     platforms := [(1, trackedPlatform\<lparr>updates := (updates trackedPlatform)\<lparr>current := Some (sampleAt 5)\<rparr>\<rparr>)],
     listeners := [1],
     trace := [(1, OnChange), (1, OnFlush 0), (2, OnChange)],
     newUpdatesTrace := [NUFlush 0]\<rparr>"

section \<open>Name changes of a preference commit\<close>

text \<open>
  The rule in the words of the specification: the name differs, or the alias differs
  while aliasing is enabled (before or after the change), or the use of the alias is
  toggled.
\<close>

definition nameChangeExpected :: "CommonPrefs \<Rightarrow> CommonPrefs \<Rightarrow> bool" where
  "nameChangeExpected live modified =
     (name modified \<noteq> name live
      \<or> (aliasName modified \<noteq> aliasName live \<and> (usealias modified \<or> usealias live))
      \<or> usealias modified \<noteq> usealias live)"

text \<open>Callbacks that leave the listener lists, the trace and the name cache alone.\<close>

definition keepsListeners :: "Ext \<Rightarrow> bool" where
  "keepsListeners x = (\<forall>l ev s. listeners (callback x l ev s) = listeners s
      \<and> justRemoved (callback x l ev s) = justRemoved s
      \<and> trace (callback x l ev s) = trace s
      \<and> entityNameCache (callback x l ev s) = entityNameCache s)"

text \<open>What the listeners hear on the release of a committed preference transaction.\<close>

definition prefsNotifications :: "bool \<Rightarrow> ObjectId \<Rightarrow> ListenerId list \<Rightarrow> (ListenerId \<times> Event) list" where
  "prefsNotifications nc i ls =
     concat (map (\<lambda>l. if nc then [(l, OnPrefsChange i), (l, OnNameChange i)] else [(l, OnPrefsChange i)]) ls)"

text \<open>Platform 1 renamed, and platform 1 with datadraw switched off.\<close>

definition renamedPrefs :: Prefs where
  "renamedPrefs = plainPrefs\<lparr>commonprefs := (commonprefs plainPrefs)\<lparr>name := ''f''\<rparr>\<rparr>"

text \<open>The store with platform 1, its name in the name cache.\<close>

definition namedStore :: Store where
  "namedStore = trackStore\<lparr>entityNameCache := [(''e'', 1, PLATFORM)]\<rparr>"

section \<open>Statements about a flush\<close>





















section \<open>Containers, dispatch and shrinking\<close>

lemma ents_simps:
  "platforms s = ents s ! 0" "beams s = ents s ! 1" "gates s = ents s ! 2" "lasers s = ents s ! 3"
  "projectors s = ents s ! 4" "lobGroups s = ents s ! 5" "customRenderings s = ents s ! 6"
  by (simp_all add: ents_def)

lemma ents_eqD:
  assumes "ents t = ents s"
  shows "platforms t = platforms s" "beams t = beams s" "gates t = gates s" "lasers t = lasers s"
    "projectors t = projectors s" "lobGroups t = lobGroups s" "customRenderings t = customRenderings s"
  using assms by (simp_all add: ents_def)

lemma checkForRemoval_ents: "ents (snd (checkForRemoval lc s)) = ents s"
  by (simp add: checkForRemoval_def ents_def)

lemma visit_ents: "keepsEntities x \<Longrightarrow> ents (snd (visit x i evs lc s)) = ents s"
proof (induction evs arbitrary: lc s)
  case Nil
  then show ?case by simp
next
  case (Cons ev evs)
  show ?case
  proof (cases "lc ! i")
    case None
    then show ?thesis by simp
  next
    case (Some l)
    have "ents (callback x l ev (s\<lparr>trace := trace s @ [(l, ev)]\<rparr>)) = ents s"
      using Cons.prems by (simp add: keepsEntities_def) (simp add: ents_def)
    then show ?thesis using Some Cons by (simp add: Let_def checkForRemoval_ents)
  qed
qed

lemma dispatchFrom_ents: "keepsEntities x \<Longrightarrow> ents (snd (dispatchFrom x evs n i lc s)) = ents s"
  by (induction n arbitrary: i lc s) (simp_all add: Let_def visit_ents)

lemma dispatchOver_ents: "keepsEntities x \<Longrightarrow> ents (snd (dispatchOver x evs lc s)) = ents s"
  by (simp add: dispatchOver_def dispatchFrom_ents)

lemma dispatch_ents: "keepsEntities x \<Longrightarrow> ents (dispatch x evs s) = ents s"
  by (simp add: dispatch_def dispatchOver_ents) (simp add: ents_def)

lemma shrunk_refl: "shrunk {} s s"
  by (simp add: shrunk_def ents_def)

lemma shrunk_trans: "shrunk R s t \<Longrightarrow> shrunk R' t u \<Longrightarrow> shrunk (R \<union> R') s u"
  by (auto simp: shrunk_def ents_def intro!: filter_cong)

lemma shrunk_ents_eq: "ents t = ents s \<Longrightarrow> shrunk R s u \<Longrightarrow> shrunk R t u"
  by (simp add: shrunk_def)

lemma shrunk_ents_eq2: "ents u = ents t \<Longrightarrow> shrunk R s t \<Longrightarrow> shrunk R s u"
  by (simp add: shrunk_def)

lemma idList_shrunk: "shrunk R s t \<Longrightarrow> idList t = filter (\<lambda>i. i \<notin> R) (idList s)"
  by (simp add: shrunk_def ents_def idList_def filter_map comp_def)

lemma uniqueIds_shrunk: "shrunk R s t \<Longrightarrow> uniqueIds s \<Longrightarrow> uniqueIds t"
  by (simp add: uniqueIds_def idList_shrunk)

lemma hasKey_iff: "hasKey m k \<longleftrightarrow> k \<in> fst ` set m"
  by (simp add: hasKey_def map_of_eq_None_iff)

lemma objectType_NONE_iff: "objectType s i = NONE \<longleftrightarrow> i \<notin> set (idList s)"
  by (auto simp: objectType_def idList_def hasKey_iff)

lemma shrunk_gone: "shrunk R s t \<Longrightarrow> i \<in> R \<Longrightarrow> objectType t i = NONE"
  by (simp add: objectType_NONE_iff idList_shrunk)

lemma eraseKey_absent: "\<not> hasKey m k \<Longrightarrow> eraseKey k m = m"
  by (auto simp: eraseKey_def hasKey_iff filter_id_conv)

lemma eraseKey_filter: "eraseKey k m = filter (\<lambda>p. fst p \<notin> {k}) m"
  by (simp add: eraseKey_def)


lemma filter_absent: "\<not> hasKey m k \<Longrightarrow> filter (\<lambda>p. fst p \<noteq> k) m = m"
  by (auto simp: hasKey_iff filter_id_conv)

lemma filter_erase: "filter (\<lambda>p. fst p \<notin> {k}) m = eraseKey k m"
  by (simp add: eraseKey_def)


lemma distinct_concat_nth:
  "distinct (concat xss) \<Longrightarrow> j < k \<Longrightarrow> k < length xss \<Longrightarrow> set (xss ! j) \<inter> set (xss ! k) = {}"
proof (induction xss arbitrary: j k)
  case Nil
  then show ?case by simp
next
  case (Cons a xss)
  obtain k' where k: "k = Suc k'" using Cons.prems(2) by (cases k) auto
  show ?case
  proof (cases j)
    case 0
    have "xss ! k' \<in> set xss" using Cons.prems(3) k by simp
    then have "set (xss ! k') \<subseteq> set (concat xss)" by auto
    moreover have "set a \<inter> set (concat xss) = {}" using Cons.prems(1) by simp
    ultimately show ?thesis using 0 k by auto
  next
    case (Suc j')
    then show ?thesis using Cons k by simp
  qed
qed

lemma uniqueIds_idx:
  assumes "uniqueIds s" "j < 7" "k < 7" "j \<noteq> k" "hasKey (ents s ! j) i"
  shows "\<not> hasKey (ents s ! k) i"
proof -
  let ?xss = "map (map fst) (ents s)"
  have c: "idList s = concat ?xss"
    by (simp add: idList_def ents_def)
  have len: "length ?xss = 7" by (simp add: ents_def)
  have d: "distinct (concat ?xss)" using assms(1) by (simp add: uniqueIds_def c)
  have disj: "set (?xss ! a) \<inter> set (?xss ! b) = {}" if "a \<noteq> b" "a < 7" "b < 7" for a b
  proof (cases "a < b")
    case True
    then show ?thesis using distinct_concat_nth[OF d, of a b] that len by simp
  next
    case False
    then have "b < a" using that by simp
    then show ?thesis using distinct_concat_nth[OF d, of b a] that len by (simp add: Int_commute)
  qed
  have "set (?xss ! j) \<inter> set (?xss ! k) = {}" using disj assms by simp
  moreover have "?xss ! j = map fst (ents s ! j)" "?xss ! k = map fst (ents s ! k)"
    using assms(2,3) len by simp_all
  ultimately show ?thesis using assms(5) by (auto simp: hasKey_iff)
qed

lemma removePrepare_ents: "keepsEntities x \<Longrightarrow> ents (removePrepare x i ot s) = ents s"
proof -
  assume k: "keepsEntities x"
  have "ents (dispatch x [OnRemoveEntity i ot] (s\<lparr>hasChanged := True\<rparr>)) = ents (s\<lparr>hasChanged := True\<rparr>)"
    by (rule dispatch_ents[OF k])
  then show ?thesis by (simp add: removePrepare_def Let_def ents_def)
qed

lemma post_ents: "keepsEntities x \<Longrightarrow> ents (fireOnPostRemoveEntity x i ot u) = ents u"
  by (simp add: fireOnPostRemoveEntity_def dispatch_ents)

lemma shrunk_absent: "objectType s i = NONE \<Longrightarrow> shrunk {i} s s"
proof -
  assume "objectType s i = NONE"
  then have "i \<notin> set (idList s)" by (simp add: objectType_NONE_iff)
  then have "\<forall>m \<in> set (ents s). \<not> hasKey m i"
    by (auto simp: ents_def idList_def hasKey_iff)
  then have "\<forall>m \<in> set (ents s). filter (\<lambda>p. fst p \<noteq> i) m = m"
    using filter_absent by blast
  then show ?thesis unfolding shrunk_def by (simp add: map_idI)
qed

text \<open>Erasing from one container, the id being absent from the others.\<close>

lemma shrunk_erase:
  assumes "ents t = (ents s)[j := eraseKey i (ents s ! j)]" "j < 7"
    and "\<forall>k < 7. k \<noteq> j \<longrightarrow> \<not> hasKey (ents s ! k) i"
  shows "shrunk {i} s t"
proof -
  have len: "length (ents s) = 7" by (simp add: ents_def)
  have "ents t ! k = filter (\<lambda>p. fst p \<notin> {i}) (ents s ! k)" if "k < 7" for k
  proof (cases "k = j")
    case True
    then show ?thesis using assms(1,2) len by (simp add: eraseKey_def)
  next
    case False
    then show ?thesis using assms(1,3) that len by (simp add: filter_absent)
  qed
  then show ?thesis unfolding shrunk_def using len assms(1)
    by (intro nth_equalityI) simp_all
qed


text \<open>Unfolding the concrete stores and the queries, for evaluation.\<close>

lemmas evalDefs = numeral_3_eq_3 newStore_def quietExt_def
     objectType_def hasKey_def removePrepare_def dispatch_def dispatchOver_def  nameCacheRemove_def eraseKey_def
     beamIdListForHost_def laserIdListForHost_def projectorIdListForHost_def
      lobGroupIdListForHost_def customRenderingIdListForHost_def gateIdListForHost_def idListForHost_def
      hostidValue_def mkEntry_def fireOnPostRemoveEntity_def nameFromId_def commonPrefs_def findEntry_def
      checkForRemoval_def entityHostId_def


section \<open>Removing a platform and what it hosts\<close>

lemma removeEntity_leaf:
  assumes k: "keepsEntities x" and u: "uniqueIds s"
    and np: "\<not> hasKey (platforms s) i" and nb: "\<not> hasKey (beams s) i"
  shows "\<exists>t. removeEntity x (Suc n) i s = Some t \<and> shrunk {i} s t"
proof (cases "objectType s i = NONE")
  case True
  then show ?thesis using shrunk_absent by simp
next
  case False
  define ot where "ot = objectType s i"
  define s3 where "s3 = removePrepare x i ot s"
  have e: "ents s3 = ents s" unfolding s3_def by (rule removePrepare_ents[OF k])
  note c = ents_eqD[OF e]
  have others: "\<forall>k < 7. k \<noteq> j \<longrightarrow> \<not> hasKey (ents s ! k) i" if "j < 7" "hasKey (ents s ! j) i" for j
    using uniqueIds_idx[OF u that(1)] that(2) by blast
  have fin: "shrunk {i} s (fireOnPostRemoveEntity x i ot t)"
    if "ents t = (ents s)[j := eraseKey i (ents s ! j)]" "j < 7" "hasKey (ents s ! j) i" for t j
    using shrunk_erase[of "fireOnPostRemoveEntity x i ot t" s j i] that others[OF that(2,3)]
    by (simp add: post_ents[OF k])
  have unf: "removeEntity x (Suc n) i s =
        (if hasKey (gates s3) i then
            Some (fireOnPostRemoveEntity x i ot (s3\<lparr>gates := eraseKey i (gates s3)\<rparr>))
          else if hasKey (lasers s3) i then
            Some (fireOnPostRemoveEntity x i ot (s3\<lparr>lasers := eraseKey i (lasers s3)\<rparr>))
          else if hasKey (projectors s3) i then
            Some (fireOnPostRemoveEntity x i ot (s3\<lparr>projectors := eraseKey i (projectors s3)\<rparr>))
          else if hasKey (lobGroups s3) i then
            Some (fireOnPostRemoveEntity x i ot (s3\<lparr>lobGroups := eraseKey i (lobGroups s3)\<rparr>))
          else if hasKey (customRenderings s3) i then
            Some (fireOnPostRemoveEntity x i ot (s3\<lparr>customRenderings := eraseKey i (customRenderings s3)\<rparr>))
          else Some s3)"
    using False np nb c(1,2) unfolding removeEntity.simps Let_def ot_def[symmetric] s3_def[symmetric]
    by (simp only: if_False)
  have some: "hasKey (gates s) i \<or> hasKey (lasers s) i \<or> hasKey (projectors s) i
      \<or> hasKey (lobGroups s) i \<or> hasKey (customRenderings s) i"
    using False np nb by (simp add: objectType_def split: if_splits)
  consider (1) "hasKey (gates s) i" | (2) "\<not> hasKey (gates s) i" "hasKey (lasers s) i"
    | (3) "\<not> hasKey (gates s) i" "\<not> hasKey (lasers s) i" "hasKey (projectors s) i"
    | (4) "\<not> hasKey (gates s) i" "\<not> hasKey (lasers s) i" "\<not> hasKey (projectors s) i" "hasKey (lobGroups s) i"
    | (5) "\<not> hasKey (gates s) i" "\<not> hasKey (lasers s) i" "\<not> hasKey (projectors s) i" "\<not> hasKey (lobGroups s) i" "hasKey (customRenderings s) i"
    using some by blast
  then show ?thesis
  proof cases
    case 1
    have "ents (s3\<lparr>gates := eraseKey i (gates s3)\<rparr>) = (ents s)[2 := eraseKey i (ents s ! 2)]"
      using c by (simp add: ents_def)
    from fin[OF this] 1 have "shrunk {i} s (fireOnPostRemoveEntity x i ot (s3\<lparr>gates := eraseKey i (gates s3)\<rparr>))"
      by (simp add: ents_def)
    then show ?thesis using unf 1 c by simp
  next
    case 2
    have "ents (s3\<lparr>lasers := eraseKey i (lasers s3)\<rparr>) = (ents s)[3 := eraseKey i (ents s ! 3)]"
      using c by (simp add: ents_def)
    from fin[OF this] 2 have "shrunk {i} s (fireOnPostRemoveEntity x i ot (s3\<lparr>lasers := eraseKey i (lasers s3)\<rparr>))"
      by (simp add: ents_def)
    then show ?thesis using unf 2 c by simp
  next
    case 3
    have "ents (s3\<lparr>projectors := eraseKey i (projectors s3)\<rparr>) = (ents s)[4 := eraseKey i (ents s ! 4)]"
      using c by (simp add: ents_def)
    from fin[OF this] 3 have "shrunk {i} s (fireOnPostRemoveEntity x i ot (s3\<lparr>projectors := eraseKey i (projectors s3)\<rparr>))"
      by (simp add: ents_def)
    then show ?thesis using unf 3 c by simp
  next
    case 4
    have "ents (s3\<lparr>lobGroups := eraseKey i (lobGroups s3)\<rparr>) = (ents s)[5 := eraseKey i (ents s ! 5)]"
      using c by (simp add: ents_def)
    from fin[OF this] 4 have "shrunk {i} s (fireOnPostRemoveEntity x i ot (s3\<lparr>lobGroups := eraseKey i (lobGroups s3)\<rparr>))"
      by (simp add: ents_def)
    then show ?thesis using unf 4 c by simp
  next
    case 5
    have "ents (s3\<lparr>customRenderings := eraseKey i (customRenderings s3)\<rparr>) = (ents s)[6 := eraseKey i (ents s ! 6)]"
      using c by (simp add: ents_def)
    from fin[OF this] 5 have "shrunk {i} s (fireOnPostRemoveEntity x i ot (s3\<lparr>customRenderings := eraseKey i (customRenderings s3)\<rparr>))"
      by (simp add: ents_def)
    then show ?thesis using unf 5 c by simp
  qed
qed


lemma shrunkD:
  assumes "shrunk R s t"
  shows "platforms t = filter (\<lambda>p. fst p \<notin> R) (platforms s)"
    "beams t = filter (\<lambda>p. fst p \<notin> R) (beams s)"
    "gates t = filter (\<lambda>p. fst p \<notin> R) (gates s)"
    "lasers t = filter (\<lambda>p. fst p \<notin> R) (lasers s)"
    "projectors t = filter (\<lambda>p. fst p \<notin> R) (projectors s)"
    "lobGroups t = filter (\<lambda>p. fst p \<notin> R) (lobGroups s)"
    "customRenderings t = filter (\<lambda>p. fst p \<notin> R) (customRenderings s)"
  using assms by (simp_all add: shrunk_def ents_def)

lemma shrunk_nth: "shrunk R s t \<Longrightarrow> k < 7 \<Longrightarrow> ents t ! k = filter (\<lambda>p. fst p \<notin> R) (ents s ! k)"
proof -
  assume a: "shrunk R s t" "k < 7"
  have "length (ents s) = 7" by (simp add: ents_def)
  then show ?thesis using a unfolding shrunk_def by simp
qed

lemma hasKey_filter: "hasKey (filter (\<lambda>p. fst p \<notin> R) m) i \<longleftrightarrow> hasKey m i \<and> i \<notin> R"
  by (auto simp: hasKey_iff)

lemma idListForHost_filter:
  "idListForHost (filter (\<lambda>p. fst p \<notin> R) c) h = filter (\<lambda>i. i \<notin> R) (idListForHost c h)"
  by (induction c) (auto simp: idListForHost_def)

lemma idListForHost_keys: "i \<in> set (idListForHost c h) \<Longrightarrow> hasKey c i"
  by (auto simp: idListForHost_def hasKey_iff)

lemma removeEach_inv:
  "(\<forall>c\<in>set ids. \<forall>R t. I R t \<longrightarrow> (\<exists>t' R'. f c t = Some t' \<and> I R' t' \<and> R \<subseteq> R' \<and> c \<in> R'))
   \<Longrightarrow> I R t
   \<Longrightarrow> \<exists>t' R'. removeEach f ids t = Some t' \<and> I R' t' \<and> R \<subseteq> R' \<and> set ids \<subseteq> R'"
proof (induction ids arbitrary: R t)
  case Nil
  then show ?case by auto
next
  case (Cons c ids)
  from Cons.prems obtain t1 R1 where 1: "f c t = Some t1" "I R1 t1" "R \<subseteq> R1" "c \<in> R1"
    by (meson list.set_intros(1))
  have "\<forall>c\<in>set ids. \<forall>R t. I R t \<longrightarrow> (\<exists>t' R'. f c t = Some t' \<and> I R' t' \<and> R \<subseteq> R' \<and> c \<in> R')"
    using Cons.prems(1) by simp
  from Cons.IH[OF this 1(2)] obtain t2 R2 where
    2: "removeEach f ids t1 = Some t2" "I R2 t2" "R1 \<subseteq> R2" "set ids \<subseteq> R2" by blast
  show ?case using 1 2 by auto
qed


lemma removeEachAt_inv:
  "(\<forall>c\<in>set ids. \<forall>R t. I R t \<longrightarrow> (\<exists>t' R'. f c t = Some t' \<and> I R' t' \<and> R \<subseteq> R' \<and> c \<in> R'))
   \<Longrightarrow> I R t \<Longrightarrow> (c, v) \<in> set (removeEachAt f ids t)
   \<Longrightarrow> c \<in> set ids \<and> (\<exists>R'. I R' v)"
proof (induction ids arbitrary: R t)
  case Nil
  then show ?case by simp
next
  case (Cons a ids)
  from Cons.prems(1,2) obtain t1 R1 where 1: "f a t = Some t1" "I R1 t1"
    by (meson list.set_intros(1))
  show ?case
  proof (cases "(c, v) = (a, t)")
    case True
    then show ?thesis using Cons.prems(2) by auto
  next
    case False
    then have in1: "(c, v) \<in> set (removeEachAt f ids t1)" using Cons.prems(3) 1(1) by auto
    have "\<forall>c\<in>set ids. \<forall>R t. I R t \<longrightarrow> (\<exists>t' R'. f c t = Some t' \<and> I R' t' \<and> R \<subseteq> R' \<and> c \<in> R')"
      using Cons.prems(1) by simp
    from Cons.IH[OF this 1(2) in1] show ?thesis by auto
  qed
qed


lemma removeEntity_beam_unf:
  "objectType s i = ot \<Longrightarrow> ot \<noteq> NONE \<Longrightarrow> \<not> hasKey (platforms (removePrepare x i ot s)) i
   \<Longrightarrow> hasKey (beams (removePrepare x i ot s)) i
   \<Longrightarrow> removeEntity x (Suc n) i s =
      (case removeEach (removeEntity x n)
         (gateIdListForHost (removePrepare x i ot s) i @ projectorIdListForHost (removePrepare x i ot s) i)
         (removePrepare x i ot s) of None \<Rightarrow> None
       | Some s4 \<Rightarrow> Some (fireOnPostRemoveEntity x i ot (s4\<lparr>beams := eraseKey i (beams s4)\<rparr>)))"
  by (simp add: Let_def)

lemma removeEntity_platform_unf:
  "objectType s i = ot \<Longrightarrow> ot \<noteq> NONE \<Longrightarrow> hasKey (platforms (removePrepare x i ot s)) i
   \<Longrightarrow> removeEntity x (Suc n) i s =
      (case removeEach (removeEntity x n)
         (beamIdListForHost (removePrepare x i ot s) i @ laserIdListForHost (removePrepare x i ot s) i
           @ projectorIdListForHost (removePrepare x i ot s) i @ lobGroupIdListForHost (removePrepare x i ot s) i
           @ customRenderingIdListForHost (removePrepare x i ot s) i)
         (removePrepare x i ot s) of None \<Rightarrow> None
       | Some s4 \<Rightarrow> Some (fireOnPostRemoveEntity x i ot (s4\<lparr>platforms := eraseKey i (platforms s4)\<rparr>)))"
  by (simp add: Let_def)

text \<open>
  Removing a beam: its gates and projectors go first, then its entry is erased.
\<close>

lemma removeEntity_beam_steps:
  assumes k: "keepsEntities x" and u: "uniqueIds s" and np: "\<not> hasKey (platforms s) i"
    and True: "hasKey (beams s) i"
  shows "\<exists>s4. removeEach (removeEntity x (Suc n)) (beamHosted s i) (removePrepare x i BEAM s) = Some s4
     \<and> shrunk (set (beamHosted s i)) s s4
     \<and> removeEntity x (Suc (Suc n)) i s
         = Some (fireOnPostRemoveEntity x i BEAM (s4\<lparr>beams := eraseKey i (beams s4)\<rparr>))
     \<and> shrunk (beamSubtree s i) s (fireOnPostRemoveEntity x i BEAM (s4\<lparr>beams := eraseKey i (beams s4)\<rparr>))"
proof -
  define s3 where "s3 = removePrepare x i BEAM s"
  define ids where "ids = gateIdListForHost s i @ projectorIdListForHost s i"
  have ot: "objectType s i = BEAM" using np True by (simp add: objectType_def)
  have e: "ents s3 = ents s" unfolding s3_def by (rule removePrepare_ents[OF k])
  note c = ents_eqD[OF e]
  have ids3: "gateIdListForHost s3 i @ projectorIdListForHost s3 i = ids"
    by (simp add: ids_def gateIdListForHost_def projectorIdListForHost_def c)
  have unf: "removeEntity x (Suc (Suc n)) i s =
      (case removeEach (removeEntity x (Suc n)) ids s3 of None \<Rightarrow> None
       | Some s4 \<Rightarrow> Some (fireOnPostRemoveEntity x i BEAM (s4\<lparr>beams := eraseKey i (beams s4)\<rparr>)))"
    using removeEntity_beam_unf[OF ot, of x "Suc n"] np True c(1,2) ids3 by (simp add: s3_def)
  define I where "I = (\<lambda>R t. shrunk R s t \<and> R \<subseteq> set ids)"
  have step: "\<forall>c\<in>set ids. \<forall>R t. I R t \<longrightarrow>
      (\<exists>t' R'. removeEntity x (Suc n) c t = Some t' \<and> I R' t' \<and> R \<subseteq> R' \<and> c \<in> R')"
  proof (intro ballI allI impI)
    fix c R t assume cin: "c \<in> set ids" and I: "I R t"
    then have sh: "shrunk R s t" and sub: "R \<subseteq> set ids" by (simp_all add: I_def)
    have "hasKey (gates s) c \<or> hasKey (projectors s) c"
      using cin idListForHost_keys by (auto simp: ids_def gateIdListForHost_def projectorIdListForHost_def)
    then have "\<not> hasKey (platforms s) c \<and> \<not> hasKey (beams s) c"
      using uniqueIds_idx[OF u, of 2 0 c] uniqueIds_idx[OF u, of 2 1 c]
        uniqueIds_idx[OF u, of 4 0 c] uniqueIds_idx[OF u, of 4 1 c]
      by (auto simp: ents_def)
    then have "\<not> hasKey (platforms t) c" "\<not> hasKey (beams t) c"
      using shrunkD(1,2)[OF sh] by (simp_all add: hasKey_filter)
    from removeEntity_leaf[OF k uniqueIds_shrunk[OF sh u] this, of n]
    obtain t' where t': "removeEntity x (Suc n) c t = Some t'" "shrunk {c} t t'" by blast
    have "shrunk (R \<union> {c}) s t'" using shrunk_trans[OF sh t'(2)] .
    then have "I (R \<union> {c}) t'" using sub cin by (simp add: I_def)
    then show "\<exists>t' R'. removeEntity x (Suc n) c t = Some t' \<and> I R' t' \<and> R \<subseteq> R' \<and> c \<in> R'"
      using t'(1) by blast
  qed
  have "I {} s3" using shrunk_ents_eq2[OF e shrunk_refl] by (simp add: I_def)
  from removeEach_inv[where I = I, OF step this] obtain s4 R' where
    4: "removeEach (removeEntity x (Suc n)) ids s3 = Some s4" "I R' s4" "set ids \<subseteq> R'" by blast
  then have sh4: "shrunk (set ids) s s4" by (auto simp: I_def)
  let ?t = "fireOnPostRemoveEntity x i BEAM (s4\<lparr>beams := eraseKey i (beams s4)\<rparr>)"
  have "\<forall>k<7. k \<noteq> 1 \<longrightarrow> \<not> hasKey (ents s ! k) i"
    using uniqueIds_idx[OF u, of 1 _ i] True by (auto simp: ents_def)
  then have o4: "\<forall>k<7. k \<noteq> 1 \<longrightarrow> \<not> hasKey (ents s4 ! k) i"
    using shrunk_nth[OF sh4] by (simp add: hasKey_filter)
  have "ents ?t = (ents s4)[1 := eraseKey i (ents s4 ! 1)]"
    by (simp add: post_ents[OF k]) (simp add: ents_def)
  from shrunk_erase[OF this _ o4] have "shrunk {i} s4 ?t" by simp
  moreover have "set ids \<union> {i} = beamSubtree s i"
    using True by (auto simp: beamSubtree_def ids_def)
  ultimately have sht: "shrunk (beamSubtree s i) s ?t"
    using shrunk_trans[OF sh4, of "{i}" ?t] by simp
  have idsb: "ids = beamHosted s i" by (simp add: ids_def beamHosted_def)
  show ?thesis
    by (rule exI[of _ s4]) (use unf 4(1) sh4 sht in \<open>simp add: idsb s3_def\<close>)
qed

lemma removeEntity_beam:
  assumes k: "keepsEntities x" and u: "uniqueIds s" and np: "\<not> hasKey (platforms s) i"
  shows "\<exists>t. removeEntity x (Suc (Suc n)) i s = Some t \<and> shrunk (beamSubtree s i) s t"
proof (cases "hasKey (beams s) i")
  case False
  then show ?thesis using removeEntity_leaf[OF k u np False, of "Suc n"] by (simp add: beamSubtree_def)
next
  case True
  from removeEntity_beam_steps[OF k u np True, of n] show ?thesis by blast
qed


lemma beamSubtree_shrunk:
  assumes sh: "shrunk R s t" and b: "hasKey (beams t) c"
  shows "beamSubtree s c \<subseteq> R \<union> beamSubtree t c"
proof -
  have "set (gateIdListForHost s c) \<subseteq> R \<union> set (gateIdListForHost t c)"
    "set (projectorIdListForHost s c) \<subseteq> R \<union> set (projectorIdListForHost t c)"
    using shrunkD(3,5)[OF sh]
    by (auto simp: gateIdListForHost_def projectorIdListForHost_def idListForHost_filter)
  moreover have "hasKey (beams s) c"
    using shrunkD(2)[OF sh] b by (simp add: hasKey_filter)
  ultimately show ?thesis using b unfolding beamSubtree_def by auto
qed

lemma beamSubtree_kinds:
  assumes u: "uniqueIds t" and b: "b \<in> beamSubtree t c" "b \<noteq> c"
  shows "hasKey (gates t) b \<or> hasKey (projectors t) b"
  using b idListForHost_keys
  by (auto simp: beamSubtree_def gateIdListForHost_def projectorIdListForHost_def split: if_splits)

text \<open>
  Removing a platform: what it hosts goes first, then its entry is erased; every call
  of the loop is made on a store that the removals so far have shrunk.
\<close>

lemma removeEntity_platform_steps:
  assumes k: "keepsEntities x" and u: "uniqueIds s" and p: "hasKey (platforms s) i"
  shows "\<exists>s4. removeEach (removeEntity x (Suc (Suc n))) (platformHosted s i) (removePrepare x i PLATFORM s) = Some s4
     \<and> shrunk (hostedOn s i) s s4
     \<and> removeEntity x (Suc (Suc (Suc n))) i s
         = Some (fireOnPostRemoveEntity x i PLATFORM (s4\<lparr>platforms := eraseKey i (platforms s4)\<rparr>))
     \<and> shrunk (insert i (hostedOn s i)) s
         (fireOnPostRemoveEntity x i PLATFORM (s4\<lparr>platforms := eraseKey i (platforms s4)\<rparr>))
     \<and> (\<forall>(c, v) \<in> set (removeEachAt (removeEntity x (Suc (Suc n))) (platformHosted s i)
                         (removePrepare x i PLATFORM s)).
           c \<in> set (platformHosted s i) \<and> (\<exists>R. shrunk R s v))"
proof -
  define s3 where "s3 = removePrepare x i PLATFORM s"
  define ids where "ids = beamIdListForHost s i @ laserIdListForHost s i
     @ projectorIdListForHost s i @ lobGroupIdListForHost s i @ customRenderingIdListForHost s i"
  have idsp: "ids = platformHosted s i" by (simp add: ids_def platformHosted_def)
  have ot: "objectType s i = PLATFORM" using p by (simp add: objectType_def)
  have e: "ents s3 = ents s" unfolding s3_def by (rule removePrepare_ents[OF k])
  note c = ents_eqD[OF e]
  have ids3: "beamIdListForHost s3 i @ laserIdListForHost s3 i
     @ projectorIdListForHost s3 i @ lobGroupIdListForHost s3 i @ customRenderingIdListForHost s3 i = ids"
    by (simp add: ids_def beamIdListForHost_def laserIdListForHost_def projectorIdListForHost_def
        lobGroupIdListForHost_def customRenderingIdListForHost_def c)
  have unf: "removeEntity x (Suc (Suc (Suc n))) i s =
      (case removeEach (removeEntity x (Suc (Suc n))) ids s3 of None \<Rightarrow> None
       | Some s4 \<Rightarrow> Some (fireOnPostRemoveEntity x i PLATFORM (s4\<lparr>platforms := eraseKey i (platforms s4)\<rparr>)))"
    using removeEntity_platform_unf[OF ot, of x "Suc (Suc n)"] p c(1) ids3 by (simp add: s3_def)
  have idsH: "set ids \<subseteq> hostedOn s i" by (auto simp: ids_def hostedOn_def)
  have kinds: "hasKey (beams s) c \<or> hasKey (lasers s) c \<or> hasKey (projectors s) c
        \<or> hasKey (lobGroups s) c \<or> hasKey (customRenderings s) c" if "c \<in> set ids" for c
    using that idListForHost_keys
    by (auto simp: ids_def beamIdListForHost_def laserIdListForHost_def projectorIdListForHost_def
        lobGroupIdListForHost_def customRenderingIdListForHost_def)
  have beamOf: "c \<in> set (beamIdListForHost s i)" if cin: "c \<in> set ids" and cb: "hasKey (beams s) c" for c
  proof -
    have "\<not> hasKey (lasers s) c" "\<not> hasKey (projectors s) c" "\<not> hasKey (lobGroups s) c"
      "\<not> hasKey (customRenderings s) c"
      using uniqueIds_idx[OF u, of 1 3 c] uniqueIds_idx[OF u, of 1 4 c] uniqueIds_idx[OF u, of 1 5 c]
        uniqueIds_idx[OF u, of 1 6 c] cb
      by (auto simp: ents_def)
    then show ?thesis using cin idListForHost_keys
      by (auto simp: ids_def laserIdListForHost_def projectorIdListForHost_def
          lobGroupIdListForHost_def customRenderingIdListForHost_def)
  qed
  define I where "I = (\<lambda>R t. shrunk R s t \<and> R \<subseteq> hostedOn s i
      \<and> (\<forall>b \<in> R. hasKey (beams s) b \<longrightarrow> beamSubtree s b \<subseteq> R))"
  have step: "\<forall>c\<in>set ids. \<forall>R t. I R t \<longrightarrow>
      (\<exists>t' R'. removeEntity x (Suc (Suc n)) c t = Some t' \<and> I R' t' \<and> R \<subseteq> R' \<and> c \<in> R')"
  proof (intro ballI allI impI)
    fix c R t assume cin: "c \<in> set ids" and I: "I R t"
    then have sh: "shrunk R s t" and cl: "\<forall>b \<in> R. hasKey (beams s) b \<longrightarrow> beamSubtree s b \<subseteq> R"
      and RH: "R \<subseteq> hostedOn s i"
      by (simp_all add: I_def)
    have ut: "uniqueIds t" by (rule uniqueIds_shrunk[OF sh u])
    have "\<not> hasKey (platforms s) c"
      using kinds[OF cin] uniqueIds_idx[OF u, of 1 0 c] uniqueIds_idx[OF u, of 3 0 c]
        uniqueIds_idx[OF u, of 4 0 c] uniqueIds_idx[OF u, of 5 0 c] uniqueIds_idx[OF u, of 6 0 c]
      by (auto simp: ents_def)
    then have "\<not> hasKey (platforms t) c"
      using shrunkD(1)[OF sh] by (simp add: hasKey_filter)
    from removeEntity_beam[OF k ut this, of n]
    obtain t' where t': "removeEntity x (Suc (Suc n)) c t = Some t'" "shrunk (beamSubtree t c) t t'" by blast
    let ?R = "R \<union> beamSubtree t c"
    have sh': "shrunk ?R s t'" using shrunk_trans[OF sh t'(2)] .
    have cin': "c \<in> ?R" by (simp add: beamSubtree_def)
    have sub: "beamSubtree t c \<subseteq> hostedOn s i"
    proof (cases "hasKey (beams t) c")
      case False
      then show ?thesis using cin idsH by (auto simp: beamSubtree_def)
    next
      case True
      then have "hasKey (beams s) c" using shrunkD(2)[OF sh] by (simp add: hasKey_filter)
      from beamOf[OF cin this] have cb: "c \<in> set (beamIdListForHost s i)" .
      have "set (gateIdListForHost t c) \<subseteq> set (gateIdListForHost s c)"
        "set (projectorIdListForHost t c) \<subseteq> set (projectorIdListForHost s c)"
        using shrunkD(3,5)[OF sh]
        by (auto simp: gateIdListForHost_def projectorIdListForHost_def idListForHost_filter)
      then show ?thesis using True cb cin idsH by (auto simp: beamSubtree_def hostedOn_def)
    qed
    have "beamSubtree s b \<subseteq> ?R" if b: "b \<in> ?R" "hasKey (beams s) b" for b
    proof (cases "b \<in> R")
      case True
      then show ?thesis using cl b(2) by blast
    next
      case False
      then have bt: "b \<in> beamSubtree t c" using b(1) by simp
      have "b = c"
      proof (rule ccontr)
        assume "b \<noteq> c"
        from beamSubtree_kinds[OF ut bt this] have "hasKey (gates s) b \<or> hasKey (projectors s) b"
          using shrunkD(3,5)[OF sh] by (auto simp: hasKey_filter)
        then show False using uniqueIds_idx[OF u, of 1 2 b] uniqueIds_idx[OF u, of 1 4 b] b(2)
          by (auto simp: ents_def)
      qed
      moreover have "hasKey (beams t) b" using False b(2) shrunkD(2)[OF sh] by (simp add: hasKey_filter)
      ultimately show ?thesis using beamSubtree_shrunk[OF sh, of c] by simp
    qed
    then have "I ?R t'" using sh' RH sub by (simp add: I_def)
    then show "\<exists>t' R'. removeEntity x (Suc (Suc n)) c t = Some t' \<and> I R' t' \<and> R \<subseteq> R' \<and> c \<in> R'"
      using t'(1) cin' by blast
  qed
  have I0: "I {} s3" using shrunk_ents_eq2[OF e shrunk_refl] by (simp add: I_def)
  from removeEach_inv[where I = I, OF step I0] obtain s4 R' where
    4: "removeEach (removeEntity x (Suc (Suc n))) ids s3 = Some s4" "I R' s4" "set ids \<subseteq> R'" by blast
  then have sh4: "shrunk R' s s4" and cl: "\<forall>b \<in> R'. hasKey (beams s) b \<longrightarrow> beamSubtree s b \<subseteq> R'"
    and RH: "R' \<subseteq> hostedOn s i"
    by (auto simp: I_def)
  let ?t = "fireOnPostRemoveEntity x i PLATFORM (s4\<lparr>platforms := eraseKey i (platforms s4)\<rparr>)"
  have "\<forall>k<7. k \<noteq> 0 \<longrightarrow> \<not> hasKey (ents s ! k) i"
    using uniqueIds_idx[OF u, of 0 _ i] p by (auto simp: ents_def)
  then have o4: "\<forall>k<7. k \<noteq> 0 \<longrightarrow> \<not> hasKey (ents s4 ! k) i"
    using shrunk_nth[OF sh4] by (simp add: hasKey_filter)
  have "ents ?t = (ents s4)[0 := eraseKey i (ents s4 ! 0)]"
    by (simp add: post_ents[OF k]) (simp add: ents_def)
  from shrunk_erase[OF this _ o4] have "shrunk {i} s4 ?t" by simp
  then have sht: "shrunk (R' \<union> {i}) s ?t" using shrunk_trans[OF sh4] by blast
  have "hostedOn s i \<subseteq> R'"
  proof
    fix c assume "c \<in> hostedOn s i"
    then consider "c \<in> set ids"
      | b where "b \<in> set (beamIdListForHost s i)" "c \<in> set (gateIdListForHost s b) \<union> set (projectorIdListForHost s b)"
      by (auto simp: hostedOn_def ids_def)
    then show "c \<in> R'"
    proof cases
      case 1
      then show ?thesis using 4(3) by blast
    next
      case 2
      have "b \<in> R'" using 2(1) 4(3) by (auto simp: ids_def)
      moreover have hb: "hasKey (beams s) b" using 2(1) idListForHost_keys by (auto simp: beamIdListForHost_def)
      ultimately have "beamSubtree s b \<subseteq> R'" using cl by blast
      then show ?thesis using 2(2) hb by (auto simp: beamSubtree_def)
    qed
  qed
  then have eq: "R' = hostedOn s i" using RH by blast
  have calls: "c \<in> set ids \<and> (\<exists>R. shrunk R s v)"
    if "(c, v) \<in> set (removeEachAt (removeEntity x (Suc (Suc n))) ids s3)" for c v
    using removeEachAt_inv[where I = I, OF step I0 that] by (auto simp: I_def)
  have a1: "removeEach (removeEntity x (Suc (Suc n))) (platformHosted s i) (removePrepare x i PLATFORM s) = Some s4"
    using 4(1) by (simp add: idsp s3_def)
  have a2: "shrunk (hostedOn s i) s s4" using sh4 eq by simp
  have a3: "removeEntity x (Suc (Suc (Suc n))) i s = Some ?t" using unf 4(1) by simp
  have a4: "shrunk (insert i (hostedOn s i)) s ?t" using sht eq by simp
  have a5: "\<forall>(c, v) \<in> set (removeEachAt (removeEntity x (Suc (Suc n))) (platformHosted s i)
                         (removePrepare x i PLATFORM s)).
           c \<in> set (platformHosted s i) \<and> (\<exists>R. shrunk R s v)"
    using calls by (auto simp: idsp s3_def)
  show ?thesis by (rule exI[of _ s4]) (intro conjI a1 a2 a3 a4 a5)
qed


lemma hostedOn_kinds:
  assumes u: "uniqueIds s" and c: "c \<in> hostedOn s p"
  shows "\<not> hasKey (platforms s) c"
proof -
  have "hasKey (beams s) c \<or> hasKey (gates s) c \<or> hasKey (lasers s) c \<or> hasKey (projectors s) c
      \<or> hasKey (lobGroups s) c \<or> hasKey (customRenderings s) c"
    using c idListForHost_keys
    by (auto simp: hostedOn_def beamIdListForHost_def gateIdListForHost_def laserIdListForHost_def
        projectorIdListForHost_def lobGroupIdListForHost_def customRenderingIdListForHost_def)
  then show ?thesis
    using uniqueIds_idx[OF u, of 1 0 c] uniqueIds_idx[OF u, of 2 0 c] uniqueIds_idx[OF u, of 3 0 c]
      uniqueIds_idx[OF u, of 4 0 c] uniqueIds_idx[OF u, of 5 0 c] uniqueIds_idx[OF u, of 6 0 c]
    by (auto simp: ents_def)
qed

text \<open>
  A beam removed from a store that earlier removals have shrunk: its entry is erased from
  a store that still holds it and holds none of the gates and projectors it hosted.
\<close>

lemma beam_call_steps:
  assumes k: "keepsEntities x" and u: "uniqueIds s" and sh: "shrunk R s v" and hb: "hasKey (beams v) b"
  shows "\<exists>u4. removeEach (removeEntity x (Suc n)) (beamHosted v b) (removePrepare x b BEAM v) = Some u4
     \<and> hasKey (beams u4) b \<and> (\<forall>c \<in> set (beamHosted s b). objectType u4 c = NONE)
     \<and> removeEntity x (Suc (Suc n)) b v
         = Some (fireOnPostRemoveEntity x b BEAM (u4\<lparr>beams := eraseKey b (beams u4)\<rparr>))"
proof -
  have uv: "uniqueIds v" by (rule uniqueIds_shrunk[OF sh u])
  have np: "\<not> hasKey (platforms v) b"
    using uniqueIds_idx[OF uv, of 1 0 b] hb by (simp add: ents_def)
  from removeEntity_beam_steps[OF k uv np hb, of n] obtain u4 where
    1: "removeEach (removeEntity x (Suc n)) (beamHosted v b) (removePrepare x b BEAM v) = Some u4"
    and 2: "shrunk (set (beamHosted v b)) v u4"
    and 3: "removeEntity x (Suc (Suc n)) b v
         = Some (fireOnPostRemoveEntity x b BEAM (u4\<lparr>beams := eraseKey b (beams u4)\<rparr>))"
    by blast
  have "hasKey (gates v) c \<or> hasKey (projectors v) c" if "c \<in> set (beamHosted v b)" for c
    using that idListForHost_keys
    by (auto simp: beamHosted_def gateIdListForHost_def projectorIdListForHost_def)
  then have "b \<notin> set (beamHosted v b)"
    using uniqueIds_idx[OF uv, of 1 2 b] uniqueIds_idx[OF uv, of 1 4 b] hb by (auto simp: ents_def)
  then have 4: "hasKey (beams u4) b" using shrunkD(2)[OF 2] hb by (simp add: hasKey_filter)
  have hv: "beamHosted v b = filter (\<lambda>i. i \<notin> R) (beamHosted s b)"
    using shrunkD(3,5)[OF sh]
    by (simp add: beamHosted_def gateIdListForHost_def projectorIdListForHost_def idListForHost_filter)
  have sh4: "shrunk (R \<union> set (beamHosted v b)) s u4" using shrunk_trans[OF sh 2] .
  have 5: "objectType u4 c = NONE" if "c \<in> set (beamHosted s b)" for c
  proof -
    have "c \<in> R \<union> set (beamHosted v b)" using that hv by auto
    then show ?thesis by (rule shrunk_gone[OF sh4])
  qed
  show ?thesis by (rule exI[of _ u4]) (use 1 3 4 5 in blast)
qed


text \<open>
  Claim C1, as the code has it. With callbacks that leave the containers alone and ids
  that are unique, removing a platform \<open>p\<close> returns (three levels of recursion are
  enough). It first removes, in the loop \<open>removeEach\<close>, what \<open>p\<close> hosts; the store \<open>s4\<close>
  that the loop leaves still holds \<open>p\<close> and holds no id of \<open>hostedOn s p\<close>: the beams,
  lasers, projectors, lob groups and custom renderings whose host id is \<open>p\<close>, and the
  gates and projectors whose host id is one of those beams. Only then the entry of \<open>p\<close>
  is erased, from \<open>s4\<close>. In the same way each beam that the loop removes has its gates and
  projectors removed first and its entry erased from a store \<open>u4\<close> that still holds the
  beam and none of them. Afterwards \<open>objectType\<close> is \<open>NONE\<close> for \<open>p\<close> and for every id
  in \<open>hostedOn s p\<close>, no entity of these kinds has \<open>p\<close> or a beam of \<open>p\<close> as host, and the
  containers are those of before without exactly \<open>p\<close> and \<open>hostedOn s p\<close>: every other
  entity is still there, unchanged.
\<close>

theorem removeEntity_platform_subtree:
  assumes "keepsEntities x" and "uniqueIds s" and "hasKey (platforms s) p"
  shows "\<exists>s4 t.
       removeEach (removeEntity x (Suc (Suc n))) (platformHosted s p) (removePrepare x p PLATFORM s) = Some s4
     \<and> hasKey (platforms s4) p \<and> (\<forall>c \<in> hostedOn s p. objectType s4 c = NONE)
     \<and> t = fireOnPostRemoveEntity x p PLATFORM (s4\<lparr>platforms := eraseKey p (platforms s4)\<rparr>)
     \<and> removeEntity x (Suc (Suc (Suc n))) p s = Some t
     \<and> objectType t p = NONE \<and> (\<forall>c \<in> hostedOn s p. objectType t c = NONE)
     \<and> platformHosted t p = [] \<and> (\<forall>b \<in> set (beamIdListForHost s p). beamHosted t b = [])
     \<and> shrunk (insert p (hostedOn s p)) s t
     \<and> (\<forall>(b, u) \<in> set (removeEachAt (removeEntity x (Suc (Suc n))) (platformHosted s p)
                         (removePrepare x p PLATFORM s)).
          hasKey (beams u) b \<longrightarrow>
            (\<exists>u4. removeEach (removeEntity x (Suc n)) (beamHosted u b) (removePrepare x b BEAM u) = Some u4
               \<and> hasKey (beams u4) b \<and> (\<forall>c \<in> set (beamHosted s b). objectType u4 c = NONE)
               \<and> removeEntity x (Suc (Suc n)) b u
                   = Some (fireOnPostRemoveEntity x b BEAM (u4\<lparr>beams := eraseKey b (beams u4)\<rparr>))))"
proof -
  let ?calls = "removeEachAt (removeEntity x (Suc (Suc n))) (platformHosted s p)
                         (removePrepare x p PLATFORM s)"
  from removeEntity_platform_steps[OF assms, of n] obtain s4 where
    a1: "removeEach (removeEntity x (Suc (Suc n))) (platformHosted s p) (removePrepare x p PLATFORM s) = Some s4"
    and a2: "shrunk (hostedOn s p) s s4"
    and a3: "removeEntity x (Suc (Suc (Suc n))) p s
         = Some (fireOnPostRemoveEntity x p PLATFORM (s4\<lparr>platforms := eraseKey p (platforms s4)\<rparr>))"
    and a4: "shrunk (insert p (hostedOn s p)) s
         (fireOnPostRemoveEntity x p PLATFORM (s4\<lparr>platforms := eraseKey p (platforms s4)\<rparr>))"
    and a5: "\<forall>(c, v) \<in> set ?calls. c \<in> set (platformHosted s p) \<and> (\<exists>R. shrunk R s v)"
    by blast
  let ?t = "fireOnPostRemoveEntity x p PLATFORM (s4\<lparr>platforms := eraseKey p (platforms s4)\<rparr>)"
  have "p \<notin> hostedOn s p" using hostedOn_kinds[OF assms(2), of p p] assms(3) by blast
  then have b1: "hasKey (platforms s4) p"
    using shrunkD(1)[OF a2] assms(3) by (simp add: hasKey_filter)
  have b2: "\<forall>c \<in> hostedOn s p. objectType s4 c = NONE" using shrunk_gone[OF a2] by blast
  have b3: "objectType ?t p = NONE" by (rule shrunk_gone[OF a4]) simp
  have b4: "\<forall>c \<in> hostedOn s p. objectType ?t c = NONE" using shrunk_gone[OF a4] by blast
  have emp: "filter (\<lambda>i. i \<notin> insert p (hostedOn s p)) xs = []" if "set xs \<subseteq> hostedOn s p" for xs
    using that by (auto simp: filter_empty_conv)
  note d = shrunkD[OF a4]
  have ph: "platformHosted ?t p = filter (\<lambda>i. i \<notin> insert p (hostedOn s p)) (platformHosted s p)"
    unfolding platformHosted_def beamIdListForHost_def laserIdListForHost_def
      projectorIdListForHost_def lobGroupIdListForHost_def customRenderingIdListForHost_def d
      idListForHost_filter
    by simp
  have "set (platformHosted s p) \<subseteq> hostedOn s p" by (auto simp: platformHosted_def hostedOn_def)
  then have b5: "platformHosted ?t p = []" unfolding ph by (rule emp)
  have b6: "\<forall>b \<in> set (beamIdListForHost s p). beamHosted ?t b = []"
  proof
    fix b assume "b \<in> set (beamIdListForHost s p)"
    then have "set (beamHosted s b) \<subseteq> hostedOn s p" by (auto simp: beamHosted_def hostedOn_def)
    moreover have "beamHosted ?t b = filter (\<lambda>i. i \<notin> insert p (hostedOn s p)) (beamHosted s b)"
      unfolding beamHosted_def gateIdListForHost_def projectorIdListForHost_def d
        idListForHost_filter
      by simp
    ultimately show "beamHosted ?t b = []" by (simp only: emp)
  qed
  have b7: "\<forall>(b, u) \<in> set ?calls.
          hasKey (beams u) b \<longrightarrow>
            (\<exists>u4. removeEach (removeEntity x (Suc n)) (beamHosted u b) (removePrepare x b BEAM u) = Some u4
               \<and> hasKey (beams u4) b \<and> (\<forall>c \<in> set (beamHosted s b). objectType u4 c = NONE)
               \<and> removeEntity x (Suc (Suc n)) b u
                   = Some (fireOnPostRemoveEntity x b BEAM (u4\<lparr>beams := eraseKey b (beams u4)\<rparr>)))"
  proof (intro ballI, clarify)
    fix b u assume in1: "(b, u) \<in> set ?calls" and hb: "hasKey (beams u) b"
    from a5 in1 obtain R where "shrunk R s u" by blast
    from beam_call_steps[OF assms(1,2) this hb, of n]
    show "\<exists>u4. removeEach (removeEntity x (Suc n)) (beamHosted u b) (removePrepare x b BEAM u) = Some u4
               \<and> hasKey (beams u4) b \<and> (\<forall>c \<in> set (beamHosted s b). objectType u4 c = NONE)
               \<and> removeEntity x (Suc (Suc n)) b u
                   = Some (fireOnPostRemoveEntity x b BEAM (u4\<lparr>beams := eraseKey b (beams u4)\<rparr>))" .
  qed
  show ?thesis
    by (rule exI[of _ s4], rule exI[of _ ?t]) (intro conjI a1 b1 b2 refl a3 b3 b4 b5 b6 a4 b7)
qed

theorem removeEntity_platform_subtree_witness:
  "keepsEntities quietExt \<and> uniqueIds familyStore \<and> hasKey (platforms familyStore) 1
   \<and> hostedOn familyStore 1 = {2, 3, 4, 5} \<and> beamIdListForHost familyStore 1 = [2]
   \<and> beamHosted familyStore 2 = [3]
   \<and> (2, removePrepare quietExt 1 PLATFORM familyStore)
        \<in> set (removeEachAt (removeEntity quietExt 2) (platformHosted familyStore 1)
                 (removePrepare quietExt 1 PLATFORM familyStore))
   \<and> hasKey (beams (removePrepare quietExt 1 PLATFORM familyStore)) 2
   \<and> (\<exists>u4. removeEach (removeEntity quietExt 1) (beamHosted (removePrepare quietExt 1 PLATFORM familyStore) 2)
               (removePrepare quietExt 2 BEAM (removePrepare quietExt 1 PLATFORM familyStore)) = Some u4
          \<and> hasKey (beams u4) 2 \<and> objectType u4 3 = NONE)
   \<and> (\<exists>t. removeEntity quietExt 3 1 familyStore = Some t \<and> idList t = [6, 7, 8]
          \<and> shrunk {1, 2, 3, 4, 5} familyStore t
          \<and> objectType t 1 = NONE \<and> objectType t 2 = NONE \<and> objectType t 3 = NONE
          \<and> objectType t 4 = NONE \<and> objectType t 5 = NONE
          \<and> objectType t 6 = PLATFORM \<and> objectType t 7 = BEAM \<and> objectType t 8 = GATE)"
proof -
  let ?s3 = "removePrepare quietExt 1 PLATFORM familyStore"
  have k: "keepsEntities quietExt" by (simp add: keepsEntities_def quietExt_def)
  have u: "uniqueIds familyStore" by (simp add: uniqueIds_def idList_def familyStore_def newStore_def)
  have p: "hasKey (platforms familyStore) 1" by (simp add: hasKey_def familyStore_def newStore_def)
  have h: "hostedOn familyStore 1 = {2, 3, 4, 5}"
    by (auto simp: hostedOn_def familyStore_def evalDefs)
  have h2: "beamIdListForHost familyStore 1 = [2]" "beamHosted familyStore 2 = [3]"
    by (simp_all add: beamHosted_def familyStore_def evalDefs)
  have ph: "platformHosted familyStore 1 = [2, 4, 5]"
    by (simp add: platformHosted_def familyStore_def evalDefs)
  have c0: "(2, ?s3) \<in> set (removeEachAt (removeEntity quietExt (Suc (Suc 0))) (platformHosted familyStore 1) ?s3)"
    by (subst ph) simp
  then have c1: "(2, ?s3) \<in> set (removeEachAt (removeEntity quietExt 2) (platformHosted familyStore 1) ?s3)"
    by (simp add: numeral_2_eq_2)
  have c2: "hasKey (beams ?s3) 2" by (simp add: familyStore_def evalDefs)
  from removeEntity_platform_subtree[OF k u p, of 0] obtain s4 t where
    t: "removeEntity quietExt (Suc (Suc (Suc 0))) 1 familyStore = Some t"
      "objectType t 1 = NONE" "\<forall>c \<in> hostedOn familyStore 1. objectType t c = NONE"
      "shrunk (insert 1 (hostedOn familyStore 1)) familyStore t"
    and calls: "\<forall>(b, u) \<in> set (removeEachAt (removeEntity quietExt (Suc (Suc 0))) (platformHosted familyStore 1) ?s3).
          hasKey (beams u) b \<longrightarrow>
            (\<exists>u4. removeEach (removeEntity quietExt (Suc 0)) (beamHosted u b) (removePrepare quietExt b BEAM u) = Some u4
               \<and> hasKey (beams u4) b \<and> (\<forall>c \<in> set (beamHosted familyStore b). objectType u4 c = NONE)
               \<and> removeEntity quietExt (Suc (Suc 0)) b u
                   = Some (fireOnPostRemoveEntity quietExt b BEAM (u4\<lparr>beams := eraseKey b (beams u4)\<rparr>)))"
    by blast
  from calls c0 c2 obtain u4 where
    u4: "removeEach (removeEntity quietExt (Suc 0)) (beamHosted ?s3 2) (removePrepare quietExt 2 BEAM ?s3) = Some u4"
      "hasKey (beams u4) 2" "\<forall>c \<in> set (beamHosted familyStore 2). objectType u4 c = NONE"
    by blast
  have e1: "\<exists>u4. removeEach (removeEntity quietExt 1) (beamHosted ?s3 2)
               (removePrepare quietExt 2 BEAM ?s3) = Some u4
          \<and> hasKey (beams u4) 2 \<and> objectType u4 3 = NONE"
    by (rule exI[of _ u4]) (use u4 h2 in simp)
  have t3: "removeEntity quietExt 3 1 familyStore = Some t" using t(1) by (simp add: numeral_3_eq_3)
  have il: "idList t = [6, 7, 8]" using t3 by (auto simp: evalDefs familyStore_def idList_def)
  have sh: "shrunk {1, 2, 3, 4, 5} familyStore t" using t(4) h by simp
  have gone: "objectType t 1 = NONE" "objectType t 2 = NONE" "objectType t 3 = NONE"
    "objectType t 4 = NONE" "objectType t 5 = NONE"
    using t(2,3) h by simp_all
  have kept: "objectType t 6 = PLATFORM" "objectType t 7 = BEAM" "objectType t 8 = GATE"
    using shrunkD(1,2,3)[OF sh]
    by (simp_all add: objectType_def hasKey_def familyStore_def newStore_def)
  have e2: "\<exists>t. removeEntity quietExt 3 1 familyStore = Some t \<and> idList t = [6, 7, 8]
          \<and> shrunk {1, 2, 3, 4, 5} familyStore t
          \<and> objectType t 1 = NONE \<and> objectType t 2 = NONE \<and> objectType t 3 = NONE
          \<and> objectType t 4 = NONE \<and> objectType t 5 = NONE
          \<and> objectType t 6 = PLATFORM \<and> objectType t 7 = BEAM \<and> objectType t 8 = GATE"
    by (rule exI[of _ t]) (intro conjI t3 il sh gone kept)
  show ?thesis by (intro conjI k u p h h2 c1 c2 e1 e2)
qed


text \<open>
  Claim C1 as stated fails: the removal follows the host lists by kind. A laser whose
  host id names a beam of the platform is hosted on it through the beam, yet it is in
  no list the beam's removal walks: after the platform is removed the beam is gone and
  the laser remains, its host id naming the removed beam.
\<close>

theorem removeEntity_laser_on_beam_remains:
  "removeEntity quietExt 3 1 laserOnBeamStore = Some laserOnBeamStoreAfter
   \<and> entityHostId laserOnBeamStore 2 = 1 \<and> entityHostId laserOnBeamStore 3 = 2
   \<and> objectType laserOnBeamStoreAfter 2 = NONE
   \<and> objectType laserOnBeamStoreAfter 3 = LASER \<and> entityHostId laserOnBeamStoreAfter 3 = 2"
  by (simp add: evalDefs laserOnBeamStore_def laserOnBeamStoreAfter_def)

section \<open>The update pass\<close>





lemmas updDefs = update_def updateRest_def updatePlatforms_def updateBeams_def updateGates_def
  updateLasers_def updateProjectors_def updateLobGroups_def updateCustomRenderings_def
  updateSparseSlices_def updatePlatformEntry_def updateBeamEntry_def updateGateEntry_def
  updateLaserEntry_def updateProjectorEntry_def updateLobGroupEntry_def applyCommands_def
  setCurrent_def lookupUpdate_def fileMode_def isInterpolationEnabled_def lookupAt_def
  dispatchOver_def checkForRemoval_def putKey_def quietExt_def newStore_def mkEntry_def
  plainPrefs_def emptySlice_def emptyUpdate_def sampleAt_def trackedPlatform_def dblMax_def









lemma categoryLoop_ents:
  "keepsEntities x \<Longrightarrow> ents (snd (categoryLoop x t ks lc s)) = ents s"
proof (induction ks arbitrary: lc s)
  case Nil
  then show ?case by simp
next
  case (Cons i ks)
  show ?case
  proof (cases "map_of (categoryData s) i")
    case None
    then show ?thesis using Cons by simp
  next
    case (Some c)
    let ?s1 = "s\<lparr>categoryData := putKey i (fst (categoryUpdate x t c)) (categoryData s)\<rparr>"
    have e1: "ents ?s1 = ents s" by (simp add: ents_def)
    show ?thesis
    proof (cases "snd (categoryUpdate x t c)")
      case True
      then show ?thesis using Some Cons e1
        by (simp add: Let_def dispatchOver_ents[OF Cons.prems])
    next
      case False
      then show ?thesis using Some Cons e1 by (simp add: Let_def)
    qed
  qed
qed

lemma updateGates_Done: "updateGates x t s = Done s' \<Longrightarrow> \<exists>g. s' = s\<lparr>gates := g\<rparr>"
  by (auto simp: updateGates_def split: Outcome.splits)

lemma updateRest_front:
  assumes k: "keepsEntities x"
  shows "platforms (updateRest x t s) = platforms s" "beams (updateRest x t s) = beams s"
    "gates (updateRest x t s) = gates s"
proof -
  let ?s1 = "updateSparseSlices x t s"
  let ?c = "categoryLoop x t (map fst (categoryData ?s1)) (map Some (listeners ?s1)) (?s1\<lparr>justRemoved := []\<rparr>)"
  have "ents (snd ?c) = ents (?s1\<lparr>justRemoved := []\<rparr>)" by (rule categoryLoop_ents[OF k])
  then have e: "ents (snd ?c) = ents s" by (simp add: ents_def updateSparseSlices_def)
  let ?s2 = "updateCustomRenderings x t (updateLobGroups x t (updateProjectors x t (updateLasers x t (snd ?c))))"
  let ?s3 = "?s2\<lparr>lastUpdateTime := t, hasChanged := False\<rparr>"
  have f: "ents (updateRest x t s) = ents ?s3"
    by (simp add: updateRest_def Let_def dispatchOver_ents[OF k])
  have "platforms ?s3 = platforms s" "beams ?s3 = beams s" "gates ?s3 = gates s"
    using ents_eqD[OF e]
    by (simp_all add: updateCustomRenderings_def updateLobGroups_def updateProjectors_def updateLasers_def)
  then show "platforms (updateRest x t s) = platforms s" "beams (updateRest x t s) = beams s"
    "gates (updateRest x t s) = gates s"
    using ents_eqD[OF f] by simp_all
qed

lemma updateRest_projectors:
  assumes k: "keepsEntities x"
  shows "\<exists>u. projectors (updateRest x t s)
      = map (\<lambda>p. (fst p, updateProjectorEntry x u t (fst p) (snd p))) (projectors s)"
proof -
  let ?s1 = "updateSparseSlices x t s"
  let ?c = "categoryLoop x t (map fst (categoryData ?s1)) (map Some (listeners ?s1)) (?s1\<lparr>justRemoved := []\<rparr>)"
  have "ents (snd ?c) = ents (?s1\<lparr>justRemoved := []\<rparr>)" by (rule categoryLoop_ents[OF k])
  then have e: "ents (snd ?c) = ents s" by (simp add: ents_def updateSparseSlices_def)
  let ?s2 = "updateCustomRenderings x t (updateLobGroups x t (updateProjectors x t (updateLasers x t (snd ?c))))"
  let ?s3 = "?s2\<lparr>lastUpdateTime := t, hasChanged := False\<rparr>"
  have f: "ents (updateRest x t s) = ents ?s3"
    by (simp add: updateRest_def Let_def dispatchOver_ents[OF k])
  have "projectors ?s3 = map (\<lambda>p. (fst p, updateProjectorEntry x (updateLasers x t (snd ?c)) t (fst p) (snd p))) (projectors s)"
    using ents_eqD[OF e]
    by (simp add: updateCustomRenderings_def updateLobGroups_def updateProjectors_def updateLasers_def)
  then show ?thesis using ents_eqD(5)[OF f] by auto
qed

text \<open>The entities after an update that runs.\<close>

lemma update_runs:
  assumes "update x t s = Done s'" "hasChanged s \<or> \<not> doubleEq t (lastUpdateTime s)"
  shows "\<exists>s1. updateGates x t (updateBeams x t (updatePlatforms x t s)) = Done s1 \<and> s' = updateRest x t s1"
  using assms by (auto simp: update_def split: Outcome.splits)

lemma update_platforms:
  assumes k: "keepsEntities x" and u: "update x t s = Done s'" and r: "hasChanged s \<or> \<not> doubleEq t (lastUpdateTime s)"
  shows "platforms s' = map (\<lambda>p. (fst p, updatePlatformEntry x s t (fst p) (snd p))) (platforms s)"
proof -
  from update_runs[OF u r] obtain s1 where
    1: "updateGates x t (updateBeams x t (updatePlatforms x t s)) = Done s1" "s' = updateRest x t s1" by blast
  from updateGates_Done[OF 1(1)] obtain g where "s1 = (updateBeams x t (updatePlatforms x t s))\<lparr>gates := g\<rparr>" ..
  then have "platforms s1 = map (\<lambda>p. (fst p, updatePlatformEntry x s t (fst p) (snd p))) (platforms s)"
    by (simp add: updateBeams_def updatePlatforms_def)
  then show ?thesis using 1(2) updateRest_front(1)[OF k] by simp
qed


lemma update_projectors:
  assumes k: "keepsEntities x" and u: "update x t s = Done s'" and r: "hasChanged s \<or> \<not> doubleEq t (lastUpdateTime s)"
  shows "\<exists>v. projectors s' = map (\<lambda>p. (fst p, updateProjectorEntry x v t (fst p) (snd p))) (projectors s)"
proof -
  from update_runs[OF u r] obtain s1 where
    1: "updateGates x t (updateBeams x t (updatePlatforms x t s)) = Done s1" "s' = updateRest x t s1" by blast
  from updateGates_Done[OF 1(1)] obtain g where g: "s1 = (updateBeams x t (updatePlatforms x t s))\<lparr>gates := g\<rparr>" ..
  then have "projectors s1 = projectors s" by (simp add: updateBeams_def updatePlatforms_def)
  then show ?thesis using 1(2) updateRest_projectors[OF k, of t s1] by simp
qed


lemma updateTargetGate_release: "\<not> debugBuild x \<Longrightarrow> \<exists>g. updateTargetGate x s t gate = Done g"
  by (simp add: updateTargetGate_def split: option.splits)

lemma updateGateEntry_release: "\<not> debugBuild x \<Longrightarrow> \<exists>g. updateGateEntry x s t i e = Done g"
  using updateTargetGate_release by (simp add: updateGateEntry_def Let_def)

lemma updateGateList_release: "\<not> debugBuild x \<Longrightarrow> \<exists>g. updateGateList x s t ps = Done g"
proof (induction ps)
  case Nil
  then show ?case by simp
next
  case (Cons p ps)
  from Cons obtain r where "updateGateList x s t ps = Done r" by blast
  moreover obtain e where "updateGateEntry x s t (fst p) (snd p) = Done e"
    using updateGateEntry_release[OF Cons.prems] by blast
  ultimately show ?case by simp
qed

lemma update_release: "\<not> debugBuild x \<Longrightarrow> \<exists>s'. update x t s = Done s'"
proof -
  assume r: "\<not> debugBuild x"
  obtain g where "updateGateList x (updateBeams x t (updatePlatforms x t s)) t
      (gates (updateBeams x t (updatePlatforms x t s))) = Done g"
    using updateGateList_release[OF r] by blast
  then show ?thesis by (simp add: update_def updateGates_def)
qed

lemma list_all2_map_same: "(\<And>p. p \<in> set xs \<Longrightarrow> R p (f p)) \<Longrightarrow> list_all2 R xs (map f xs)"
  by (induction xs) auto

lemma platformUpdated_entry: "platformUpdated x s t p (fst p, updatePlatformEntry x s t (fst p) (snd p))"
  by (simp add: platformUpdated_def commandsApplied_def updatePlatformEntry_def applyCommands_def
      setCurrent_def lookupUpdate_def Let_def)

lemma projectorUpdated_entry: "projectorUpdated x t p (fst p, updateProjectorEntry x v t (fst p) (snd p))"
  by (simp add: projectorUpdated_def commandsApplied_def updateProjectorEntry_def applyCommands_def
      lookupUpdate_def Let_def)






lemma keepsEntities_commandExt: "keepsEntities commandExt"
  by (simp add: keepsEntities_def commandExt_def quietExt_def)


text \<open>
  Claim C5, as the code has it. An update at \<open>t\<close> that is not skipped (the store has
  staged changes, or \<open>t\<close> is not the last update time) and returns leaves every platform
  as \<open>platformUpdated\<close> says: with datadraw on once the commands are applied, and in file
  mode (no clock bound, or a clock not in live mode), the current sample is null when the
  platform is not static and \<open>t\<close> is before \<open>firstTime\<close> or after \<open>lastTime\<close>; otherwise
  the slice is updated by the interpolated lookup when interpolation is enabled and the
  platform's interpolation preference is set, by the plain lookup when not. Without
  assertions the update always returns; listeners leave the entities alone.
\<close>

theorem update_platform_file_mode:
  assumes "keepsEntities x" and "hasChanged s \<or> \<not> doubleEq t (lastUpdateTime s)"
  shows "(\<not> debugBuild x \<longrightarrow> (\<exists>s'. update x t s = Done s'))
     \<and> (\<forall>s'. update x t s = Done s' \<longrightarrow> list_all2 (platformUpdated x s t) (platforms s) (platforms s'))"
proof (intro conjI allI impI)
  assume "\<not> debugBuild x"
  then show "\<exists>s'. update x t s = Done s'" by (rule update_release)
next
  fix s' assume "update x t s = Done s'"
  from update_platforms[OF assms(1) this assms(2)]
  show "list_all2 (platformUpdated x s t) (platforms s) (platforms s')"
    by (simp add: list_all2_map_same platformUpdated_entry)
qed

theorem update_platform_file_mode_witness:
  "keepsEntities commandExt \<and> hasChanged switchedOnStore \<and> \<not> debugBuild commandExt
   \<and> fileMode switchedOnStore
   \<and> map (\<lambda>p. datadraw (commonprefs (preferences (snd p)))) (platforms switchedOnStore) = [False]
   \<and> map (\<lambda>p. current (updates (snd p))) (platforms switchedOnStore) = [Some (sampleAt 5)]
   \<and> (\<exists>s'. update commandExt (Num 6) switchedOnStore = Done s'
          \<and> list_all2 (platformUpdated commandExt switchedOnStore (Num 6)) (platforms switchedOnStore) (platforms s')
          \<and> map (\<lambda>p. datadraw (commonprefs (preferences (snd p)))) (platforms s') = [True]
          \<and> map (\<lambda>p. current (updates (snd p))) (platforms s') = [None])
   \<and> (\<exists>s'. update commandExt (Num 5) switchedOnStore = Done s'
          \<and> list_all2 (platformUpdated commandExt switchedOnStore (Num 5)) (platforms switchedOnStore) (platforms s')
          \<and> map (\<lambda>p. datadraw (commonprefs (preferences (snd p)))) (platforms s') = [True]
          \<and> map (\<lambda>p. current (updates (snd p))) (platforms s') = [Some (sampleAt 5)])"
proof -
  have h: "hasChanged switchedOnStore \<or> \<not> doubleEq (Num 6) (lastUpdateTime switchedOnStore)"
    "hasChanged switchedOnStore \<or> \<not> doubleEq (Num 5) (lastUpdateTime switchedOnStore)"
    "hasChanged switchedOnStore"
    by (simp_all add: switchedOnStore_def trackStore_def)
  have r: "\<not> debugBuild commandExt" by (simp add: commandExt_def quietExt_def)
  have f: "fileMode switchedOnStore"
    by (simp add: fileMode_def switchedOnStore_def trackStore_def newStore_def)
  have c0: "map (\<lambda>p. datadraw (commonprefs (preferences (snd p)))) (platforms switchedOnStore) = [False]"
    "map (\<lambda>p. current (updates (snd p))) (platforms switchedOnStore) = [Some (sampleAt 5)]"
    by (simp_all add: switchedOnStore_def switchedOnPlatform_def heldPlatform_def hiddenPrefs_def
        plainPrefs_def)
  note a = update_platform_file_mode[OF keepsEntities_commandExt h(1)]
  note b = update_platform_file_mode[OF keepsEntities_commandExt h(2)]
  from a r obtain s6 where s6: "update commandExt (Num 6) switchedOnStore = Done s6" by blast
  from b r obtain s5 where s5: "update commandExt (Num 5) switchedOnStore = Done s5" by blast
  have "\<forall>s'. update commandExt (Num 6) switchedOnStore = Done s'
      \<longrightarrow> map (\<lambda>p. datadraw (commonprefs (preferences (snd p)))) (platforms s') = [True]
        \<and> map (\<lambda>p. current (updates (snd p))) (platforms s') = [None]"
    by (simp add: updDefs commandExt_def switchedOnStore_def switchedOnPlatform_def heldPlatform_def
        trackStore_def hiddenPrefs_def Let_def)
  then have c6: "map (\<lambda>p. datadraw (commonprefs (preferences (snd p)))) (platforms s6) = [True]"
    "map (\<lambda>p. current (updates (snd p))) (platforms s6) = [None]" using s6 by blast+
  have "\<forall>s'. update commandExt (Num 5) switchedOnStore = Done s'
      \<longrightarrow> map (\<lambda>p. datadraw (commonprefs (preferences (snd p)))) (platforms s') = [True]
        \<and> map (\<lambda>p. current (updates (snd p))) (platforms s') = [Some (sampleAt 5)]"
    by (simp add: updDefs commandExt_def switchedOnStore_def switchedOnPlatform_def heldPlatform_def
        trackStore_def hiddenPrefs_def Let_def)
  then have c5: "map (\<lambda>p. datadraw (commonprefs (preferences (snd p)))) (platforms s5) = [True]"
    "map (\<lambda>p. current (updates (snd p))) (platforms s5) = [Some (sampleAt 5)]" using s5 by blast+
  have l6: "list_all2 (platformUpdated commandExt switchedOnStore (Num 6)) (platforms switchedOnStore) (platforms s6)"
    using a s6 by blast
  have l5: "list_all2 (platformUpdated commandExt switchedOnStore (Num 5)) (platforms switchedOnStore) (platforms s5)"
    using b s5 by blast
  have e6: "\<exists>s'. update commandExt (Num 6) switchedOnStore = Done s'
          \<and> list_all2 (platformUpdated commandExt switchedOnStore (Num 6)) (platforms switchedOnStore) (platforms s')
          \<and> map (\<lambda>p. datadraw (commonprefs (preferences (snd p)))) (platforms s') = [True]
          \<and> map (\<lambda>p. current (updates (snd p))) (platforms s') = [None]"
    by (rule exI[of _ s6]) (intro conjI s6 l6 c6)
  have e5: "\<exists>s'. update commandExt (Num 5) switchedOnStore = Done s'
          \<and> list_all2 (platformUpdated commandExt switchedOnStore (Num 5)) (platforms switchedOnStore) (platforms s')
          \<and> map (\<lambda>p. datadraw (commonprefs (preferences (snd p)))) (platforms s') = [True]
          \<and> map (\<lambda>p. current (updates (snd p))) (platforms s') = [Some (sampleAt 5)]"
    by (rule exI[of _ s5]) (intro conjI s5 l5 c5)
  show ?thesis by (intro conjI keepsEntities_commandExt h(3) r f c0 e6 e5)
qed


text \<open>
  Claim C5 as stated fails for an update that is skipped. Platform 1, with datadraw on
  and its only sample at time 5, is updated at time 6 under a clock in live mode and
  holds that sample; the clock is then unbound, which stages no change. The store is now
  in file mode and 6 is after the platform's last time, but a second update at time 6
  returns the store as it is and the platform keeps its current sample.
\<close>

theorem update_after_unbinding_clock_keeps_expired_sample:
  "update quietExt (Num 6) (bindToClock (Some True) trackStore) = Done liveUpdatedStore
   \<and> fileMode (bindToClock None liveUpdatedStore)
   \<and> platforms (bindToClock None liveUpdatedStore) = [(1, heldPlatform)]
   \<and> datadraw (commonprefs (preferences heldPlatform))
   \<and> firstTime quietExt (updates heldPlatform) = Num 5
   \<and> lastTime quietExt (updates heldPlatform) = Num 5
   \<and> update quietExt (Num 6) (bindToClock None liveUpdatedStore) = Done (bindToClock None liveUpdatedStore)
   \<and> current (updates heldPlatform) = Some (sampleAt 5)"
  by (simp add: updDefs bindToClock_def liveUpdatedStore_def heldPlatform_def trackStore_def Let_def)







text \<open>
  Claim C10. An update at \<open>t\<close> that returns either is skipped (nothing staged and \<open>t\<close>
  the last update time) and leaves every projector as it is, or leaves every projector
  as \<open>projectorUpdated\<close> says: its commands applied and its slice updated by the
  interpolated or by the plain lookup. The datadraw preference plays no part: in
  \<open>commandedStore\<close> a command switches datadraw off for a laser and for a projector that
  both hold a sample; the laser is left without current sample, the projector gets the
  sample looked up.
\<close>

theorem update_projector_ignores_datadraw:
  assumes "keepsEntities x"
  shows "(\<not> debugBuild x \<longrightarrow> (\<exists>s'. update x t s = Done s'))
     \<and> (\<forall>s'. update x t s = Done s' \<longrightarrow>
          (if \<not> hasChanged s \<and> doubleEq t (lastUpdateTime s) then projectors s' = projectors s
           else list_all2 (projectorUpdated x t) (projectors s) (projectors s')))"
proof (intro conjI allI impI)
  assume "\<not> debugBuild x"
  then show "\<exists>s'. update x t s = Done s'" by (rule update_release)
next
  fix s' assume u: "update x t s = Done s'"
  show "if \<not> hasChanged s \<and> doubleEq t (lastUpdateTime s) then projectors s' = projectors s
        else list_all2 (projectorUpdated x t) (projectors s) (projectors s')"
  proof (cases "\<not> hasChanged s \<and> doubleEq t (lastUpdateTime s)")
    case True
    then show ?thesis using u by (simp add: update_def)
  next
    case False
    then have r: "hasChanged s \<or> \<not> doubleEq t (lastUpdateTime s)" by simp
    from update_projectors[OF assms u r] obtain v where
      "projectors s' = map (\<lambda>p. (fst p, updateProjectorEntry x v t (fst p) (snd p))) (projectors s)" ..
    then have "list_all2 (projectorUpdated x t) (projectors s) (projectors s')"
      by (simp add: list_all2_map_same projectorUpdated_entry)
    then show ?thesis by (simp only: False if_False)
  qed
qed

theorem update_projector_ignores_datadraw_witness:
  "keepsEntities commandExt \<and> hasChanged commandedStore \<and> \<not> debugBuild commandExt
   \<and> map (\<lambda>p. datadraw (commonprefs (preferences (snd p)))) (projectors commandedStore) = [True]
   \<and> map (\<lambda>p. current (updates (snd p))) (projectors commandedStore) = [Some (sampleAt 4)]
   \<and> (\<exists>s'. update commandExt (Num 5) commandedStore = Done s'
          \<and> list_all2 (projectorUpdated commandExt (Num 5)) (projectors commandedStore) (projectors s')
          \<and> map (\<lambda>p. preferences (snd p)) (projectors s') = [hiddenPrefs]
          \<and> map (\<lambda>p. datadraw (commonprefs (preferences (snd p)))) (projectors s') = [False]
          \<and> map (\<lambda>p. current (updates (snd p))) (projectors s') = [Some (sampleAt 5)]
          \<and> map (\<lambda>p. datadraw (commonprefs (preferences (snd p)))) (lasers s') = [False]
          \<and> map (\<lambda>p. current (updates (snd p))) (lasers s') = [None])"
proof -
  have h: "hasChanged commandedStore" by (simp add: commandedStore_def)
  have r: "\<not> debugBuild commandExt" by (simp add: commandExt_def quietExt_def)
  have c0: "map (\<lambda>p. datadraw (commonprefs (preferences (snd p)))) (projectors commandedStore) = [True]"
    "map (\<lambda>p. current (updates (snd p))) (projectors commandedStore) = [Some (sampleAt 4)]"
    by (simp_all add: commandedStore_def commandedEntry_def mkEntry_def plainPrefs_def emptySlice_def)
  note a = update_projector_ignores_datadraw[OF keepsEntities_commandExt, of "Num 5" commandedStore]
  from a r obtain s5 where s5: "update commandExt (Num 5) commandedStore = Done s5" by blast
  have l5: "list_all2 (projectorUpdated commandExt (Num 5)) (projectors commandedStore) (projectors s5)"
    using a s5 h by simp
  have "\<forall>s'. update commandExt (Num 5) commandedStore = Done s'
      \<longrightarrow> map (\<lambda>p. preferences (snd p)) (projectors s') = [hiddenPrefs]
        \<and> map (\<lambda>p. datadraw (commonprefs (preferences (snd p)))) (projectors s') = [False]
        \<and> map (\<lambda>p. current (updates (snd p))) (projectors s') = [Some (sampleAt 5)]
        \<and> map (\<lambda>p. datadraw (commonprefs (preferences (snd p)))) (lasers s') = [False]
        \<and> map (\<lambda>p. current (updates (snd p))) (lasers s') = [None]"
    by (simp add: updDefs commandExt_def commandedStore_def commandedEntry_def hiddenPrefs_def Let_def)
  then have c5: "map (\<lambda>p. preferences (snd p)) (projectors s5) = [hiddenPrefs]"
    "map (\<lambda>p. datadraw (commonprefs (preferences (snd p)))) (projectors s5) = [False]"
    "map (\<lambda>p. current (updates (snd p))) (projectors s5) = [Some (sampleAt 5)]"
    "map (\<lambda>p. datadraw (commonprefs (preferences (snd p)))) (lasers s5) = [False]"
    "map (\<lambda>p. current (updates (snd p))) (lasers s5) = [None]"
    using s5 by blast+
  have e5: "\<exists>s'. update commandExt (Num 5) commandedStore = Done s'
          \<and> list_all2 (projectorUpdated commandExt (Num 5)) (projectors commandedStore) (projectors s')
          \<and> map (\<lambda>p. preferences (snd p)) (projectors s') = [hiddenPrefs]
          \<and> map (\<lambda>p. datadraw (commonprefs (preferences (snd p)))) (projectors s') = [False]
          \<and> map (\<lambda>p. current (updates (snd p))) (projectors s') = [Some (sampleAt 5)]
          \<and> map (\<lambda>p. datadraw (commonprefs (preferences (snd p)))) (lasers s') = [False]
          \<and> map (\<lambda>p. current (updates (snd p))) (lasers s') = [None]"
    by (rule exI[of _ s5]) (intro conjI s5 l5 c5)
  show ?thesis by (intro conjI keepsEntities_commandExt h r c0 e5)
qed

section \<open>Target gates whose host is not a usable target beam\<close>

lemmas gateDefs = updateGateEntry_def updateTargetGate_def updateTargetGateFrom_def getBeamForGate_def
  gateHostViolation_def hostBeam_def applyCommands_def setCurrent_def quietExt_def debugExt_def
  staleGate_def aimlessBeamStore_def plainBeamStore_def noBeamStore_def newStore_def mkEntry_def
  plainPrefs_def


text \<open>
  With assertions compiled in and a host id that is no beam's, the second assertion
  reads the beam's type through the null pointer before the pointer is tested.
\<close>

lemma target_gate_unresolved_host_debug:
  "updateGateEntry debugExt noBeamStore (Num 5) 4 staleGate = NullDereference"
  by (simp add: gateDefs)







section \<open>Removing a listener during a dispatch pass\<close>

text \<open>The flush inside the callback of listener 1 meets callbacks that do nothing.\<close>

lemma meddling_onFlush_quiet: "callback meddlingExt l (OnFlush i) s = callback quietExt l (OnFlush i) s"
  by (simp add: meddlingExt_def quietExt_def)


text \<open>
  Claim C9 at a store with listeners 1 and 2, where listener 1 answers \<^verbatim>\<open>onChange\<close> by
  removing listener 2 and flushing. The flush runs a dispatch pass of its own, which
  clears \<^verbatim>\<open>justRemoved_\<close>; back in the pass of \<open>update\<close>, \<open>checkForRemoval\<close> finds nothing
  staged, the snapshot still holds listener 2, and listener 2 gets \<^verbatim>\<open>onChange\<close> although
  it was removed earlier in the same pass.
\<close>

theorem removed_listener_notified_after_nested_dispatch:
  "update meddlingExt (Num 5) twoListenerStore = Done meddledStore
   \<and> trace meddledStore = [(1, OnChange), (1, OnFlush 0), (2, OnChange)]
   \<and> listeners meddledStore = [1]"
  by (simp add: updDefs meddlingExt_def twoListenerStore_def meddledStore_def trackStore_def Let_def
      flush_def flushRange_def FLUSH_UPDATES_def removeListener_def dispatch_def objectType_def hasKey_def)

section \<open>Transactions that are discarded\<close>

lemma open_uncommitted:
  assumes "openTransaction a s = Some (t, s1)"
  shows "\<not> committed t" and "ents s1 = ents s" and "genericData s1 = genericData s"
    and "categoryData s1 = categoryData s" and "trace s1 = trace s"
    and "newUpdatesTrace s1 = newUpdatesTrace s"
  using assms
  by (cases a; auto simp: openTransaction_def addEntity_def mutableProperties_def mutablePrefs_def
      addUpdate_def addCommand_def addGenericData_def addCategoryData_def newTransaction_def
      Let_def ents_def split: option.splits)+

lemma release_uncommitted: "\<not> committed t \<Longrightarrow> snd (release x t s) = s"
  by (cases "impl t") (simp_all add: release_def)

lemma objectType_ents: "ents s1 = ents s \<Longrightarrow> objectType s1 i = objectType s i"
  by (simp add: objectType_def ents_def)

lemma idList_ents: "ents s1 = ents s \<Longrightarrow> idList s1 = idList s"
  by (simp add: idList_def ents_def)

lemmas txnDefs = openTransaction_def addEntity_def mutableProperties_def mutablePrefs_def
  addUpdate_def addCommand_def addGenericData_def addCategoryData_def newTransaction_def
  containerOf_def setContainer_def defaultPrefsOf_def newEntry_def insertKey_def
  commit_def commitSettings_def commitProperties_def commitEntry_def commitUpdate_def
  commitCommand_def release_def destroy_def applyDataLimiting_def nameCacheChange_def observable_def


text \<open>
  What holds of every discarded transaction. Whatever accessor opened it and whatever
  the caller wrote into what it holds, destroying it without commit returns the store the
  accessor left; that store has the containers (ids, object types, properties,
  preferences, slices) and the sparse data of the store before the accessor, and the
  same trace of listener callbacks. An accessor other than the one for a new entity
  leaves the store as it is. The accessor for a new entity has by then taken an id and
  entered the default name in the name index under it.
\<close>

lemma discarded_transaction_effect:
  assumes "openTransaction a s = Some (t, s1)"
  shows "destroy x (t\<lparr>scratch := sc\<rparr>) s1 = s1
     \<and> ents s1 = ents s \<and> genericData s1 = genericData s \<and> categoryData s1 = categoryData s
     \<and> idList s1 = idList s \<and> (\<forall>i. objectType s1 i = objectType s i)
     \<and> trace s1 = trace s \<and> newUpdatesTrace s1 = newUpdatesTrace s
     \<and> ((\<forall>ot. a \<noteq> AddEntity ot) \<longrightarrow> s1 = s)
     \<and> (\<forall>ot. a = AddEntity ot \<longrightarrow>
           s1 = s\<lparr>baseId := baseId s + 1,
                  entityNameCache := entityNameCache s
                    @ [(name (commonprefs (defaultPrefsOf ot s)), baseId s + 1, ot)]\<rparr>)"
proof -
  note o = open_uncommitted[OF assms]
  have "\<not> committed (t\<lparr>scratch := sc\<rparr>)" using o(1) by simp
  then have 1: "destroy x (t\<lparr>scratch := sc\<rparr>) s1 = s1"
    unfolding destroy_def by (rule release_uncommitted)
  have 2: "(\<forall>ot. a \<noteq> AddEntity ot) \<longrightarrow> s1 = s"
    using assms
    by (cases a; auto simp: openTransaction_def split: option.splits)
  have 3: "\<forall>ot. a = AddEntity ot \<longrightarrow>
           s1 = s\<lparr>baseId := baseId s + 1,
                  entityNameCache := entityNameCache s
                    @ [(name (commonprefs (defaultPrefsOf ot s)), baseId s + 1, ot)]\<rparr>"
    using assms by (auto simp: openTransaction_def addEntity_def Let_def)
  show ?thesis
    using 1 2 3 o objectType_ents[OF o(2)] idList_ents[OF o(2)] by simp
qed


text \<open>
  Claim C2 at the store of platform 1, for \<^verbatim>\<open>addBeam\<close>. The accessor takes the id 2 and
  enters the default name of a beam in the name index; the transaction is then destroyed
  without commit, whatever the caller wrote into the entry. The containers are as before
  and no listener is called, but the name index keeps the entry: \<open>idListByName\<close> answers
  with the id 2, which is no entity's, and the observable state is not the one before.
\<close>

theorem discarded_add_stays_in_name_index:
  "openTransaction (AddEntity BEAM) trackStore
     = Some (newTransaction (NewEntryTransactionImpl BEAM 2) (ScratchEntry (newEntry 2)), beamAddedStore)
   \<and> destroy quietExt
        ((newTransaction (NewEntryTransactionImpl BEAM 2) (ScratchEntry (newEntry 2)))
           \<lparr>scratch := ScratchEntry (mkEntry 2 (Some 1) TARGET)\<rparr>) beamAddedStore
       = beamAddedStore
   \<and> idList beamAddedStore = idList trackStore \<and> trace beamAddedStore = trace trackStore
   \<and> objectType beamAddedStore 2 = NONE
   \<and> idListByName trackStore ''e'' BEAM = []
   \<and> idListByName beamAddedStore ''e'' BEAM = [2]
   \<and> observable beamAddedStore \<noteq> observable trackStore"
  by (simp add: txnDefs idListByName_def beamAddedStore_def trackStore_def newStore_def plainPrefs_def
      idList_def objectType_def hasKey_def)

section \<open>Committing changed preferences\<close>

lemma visit_quiet:
  assumes k: "keepsListeners x" and l: "lc ! i = Some l" and j: "justRemoved s = []"
  shows "fst (visit x i evs lc s) = lc \<and> justRemoved (snd (visit x i evs lc s)) = []
     \<and> listeners (snd (visit x i evs lc s)) = listeners s
     \<and> entityNameCache (snd (visit x i evs lc s)) = entityNameCache s
     \<and> trace (snd (visit x i evs lc s)) = trace s @ map (Pair l) evs"
  using j
proof (induction evs arbitrary: s)
  case Nil
  then show ?case by simp
next
  case (Cons ev evs)
  let ?s1 = "callback x l ev (s\<lparr>trace := trace s @ [(l, ev)]\<rparr>)"
  have 1: "justRemoved ?s1 = []" "listeners ?s1 = listeners s"
    "entityNameCache ?s1 = entityNameCache s" "trace ?s1 = trace s @ [(l, ev)]"
    using k Cons.prems by (simp_all add: keepsListeners_def)
  have 2: "checkForRemoval lc ?s1 = (lc, ?s1)" using 1(1) by (simp add: checkForRemoval_def)
  show ?case using Cons.IH[OF 1(1)] l 1 2 by (simp add: Let_def)
qed

lemma dispatchFrom_quiet:
  assumes k: "keepsListeners x"
  shows "justRemoved s = [] \<Longrightarrow> i + n \<le> length ls \<Longrightarrow>
     listeners (snd (dispatchFrom x evs n i (map Some ls) s)) = listeners s
     \<and> entityNameCache (snd (dispatchFrom x evs n i (map Some ls) s)) = entityNameCache s
     \<and> trace (snd (dispatchFrom x evs n i (map Some ls) s))
         = trace s @ concat (map (\<lambda>l. map (Pair l) evs) (take n (drop i ls)))"
proof (induction n arbitrary: i s)
  case 0
  then show ?case by simp
next
  case (Suc n)
  have l: "map Some ls ! i = Some (ls ! i)" using Suc.prems(2) by simp
  note v = visit_quiet[OF k l Suc.prems(1), of evs]
  have d: "take (Suc n) (drop i ls) = (ls ! i) # take n (drop (Suc i) ls)"
    using Suc.prems(2) by (simp add: Cons_nth_drop_Suc[symmetric])
  have "Suc i + n \<le> length ls" using Suc.prems(2) by simp
  from Suc.IH[OF _ this, of "snd (visit x i evs (map Some ls) s)"] v
  show ?case by (simp add: Let_def d)
qed

lemma dispatch_quiet:
  assumes k: "keepsListeners x"
  shows "listeners (dispatch x evs s) = listeners s"
    and "entityNameCache (dispatch x evs s) = entityNameCache s"
    and "trace (dispatch x evs s) = trace s @ concat (map (\<lambda>l. map (Pair l) evs) (listeners s))"
  using dispatchFrom_quiet[OF k, of "s\<lparr>justRemoved := []\<rparr>" 0 "length (listeners s)" "listeners s" evs]
  by (simp_all add: dispatch_def dispatchOver_def)


lemma setContainer_keeps:
  "listeners (setContainer ot c s) = listeners s" "trace (setContainer ot c s) = trace s"
  "entityNameCache (setContainer ot c s) = entityNameCache s"
  "dataLimiting (setContainer ot c s) = dataLimiting s"
  by (cases ot; simp add: setContainer_def)+

lemma applyDataLimiting_keeps:
  "listeners (applyDataLimiting x i s) = listeners s" "trace (applyDataLimiting x i s) = trace s"
  "entityNameCache (applyDataLimiting x i s) = entityNameCache s"
  by (simp_all add: applyDataLimiting_def Let_def setContainer_keeps split: option.splits)

lemma nameChangeExpected_code:
  "nameChangeExpected live modified =
     (name modified \<noteq> name live \<or> (usealias modified \<and> aliasName modified \<noteq> aliasName live)
      \<or> usealias modified \<noteq> usealias live)"
  by (auto simp: nameChangeExpected_def)

lemma commitSettings_changed:
  assumes e: "map_of (containerOf ot s) k = Some e" and m: "m \<noteq> preferences e"
    and c: "commitSettings x ot k i m t s = (t1, s1)"
  shows "committed t1" "notified t1 = notified t" "impl t1 = impl t"
    "\<not> nameChange t \<Longrightarrow> nameChange t1 = nameChangeExpected (commonprefs (preferences e)) (commonprefs m)"
    "nameChangeExpected (commonprefs (preferences e)) (commonprefs m) \<Longrightarrow>
       oldName t1 = name (commonprefs (preferences e)) \<and> newName t1 = name (commonprefs m)"
    "listeners s1 = listeners s" "trace s1 = trace s" "entityNameCache s1 = entityNameCache s"
  using c e m
  by (auto simp: commitSettings_def Let_def nameChangeExpected_code setContainer_keeps
      applyDataLimiting_keeps split: if_splits)

lemma prefsNotifications_concat:
  "concat (map (\<lambda>l. map (Pair l) (if nc then [OnPrefsChange i, OnNameChange i] else [OnPrefsChange i])) ls)
     = prefsNotifications nc i ls"
  by (induction ls) (simp_all add: prefsNotifications_def)

lemma keepsListeners_quietExt: "keepsListeners quietExt"
  by (simp add: keepsListeners_def quietExt_def)


text \<open>
  Claim C6. A mutable-preferences transaction on an entry, committed with preferences
  that differ from the live ones, records a name change exactly when the name differs,
  or the alias differs while aliasing is enabled, or the use of the alias is toggled. On
  release, with listeners that leave the listener lists alone, every listener gets
  \<^verbatim>\<open>onPrefsChange\<close>, followed by \<^verbatim>\<open>onNameChange\<close> exactly when the name change was
  recorded; the name cache is updated exactly when it was recorded and the old and new
  names differ.
\<close>

theorem prefs_commit_name_change:
  assumes k: "keepsListeners x"
    and e: "map_of (containerOf ot s) key = Some e"
    and m: "m \<noteq> preferences e"
    and o: "mutablePrefs ot key s = Some t"
    and c: "commit x (t\<lparr>scratch := ScratchPrefs m\<rparr>) s = (t1, s1)"
    and r: "release x t1 s1 = (t2, s2)"
  shows "committed t1
     \<and> nameChange t1 = nameChangeExpected (commonprefs (preferences e)) (commonprefs m)
     \<and> trace s2 = trace s @ prefsNotifications
          (nameChangeExpected (commonprefs (preferences e)) (commonprefs m)) (pid (properties e)) (listeners s)
     \<and> entityNameCache s2 =
         (if nameChangeExpected (commonprefs (preferences e)) (commonprefs m)
             \<and> name (commonprefs (preferences e)) \<noteq> name (commonprefs m)
          then nameCacheChange (name (commonprefs m)) (name (commonprefs (preferences e)))
                 (pid (properties e)) (entityNameCache s)
          else entityNameCache s)"
proof -
  let ?i = "pid (properties e)"
  let ?nc = "nameChangeExpected (commonprefs (preferences e)) (commonprefs m)"
  have t: "t = newTransaction (MutableSettingsTransactionImpl ot key ?i) (ScratchPrefs (preferences e))"
    using o e by (simp add: mutablePrefs_def)
  have c': "commitSettings x ot key ?i m (t\<lparr>scratch := ScratchPrefs m\<rparr>) s = (t1, s1)"
    using c by (simp add: commit_def t newTransaction_def)
  note f = commitSettings_changed[OF e m c']
  have nc0: "\<not> nameChange (t\<lparr>scratch := ScratchPrefs m\<rparr>)" "\<not> notified (t\<lparr>scratch := ScratchPrefs m\<rparr>)"
    "impl (t\<lparr>scratch := ScratchPrefs m\<rparr>) = MutableSettingsTransactionImpl ot key ?i"
    by (simp_all add: t newTransaction_def)
  have 1: "committed t1" "\<not> notified t1" "impl t1 = MutableSettingsTransactionImpl ot key ?i"
    "nameChange t1 = ?nc"
    using f(1,2,3) f(4)[OF nc0(1)] nc0 by simp_all
  let ?s1' = "if nameChange t1 \<and> oldName t1 \<noteq> newName t1
       then s1\<lparr>entityNameCache := nameCacheChange (newName t1) (oldName t1) ?i (entityNameCache s1)\<rparr>
       else s1"
  have s2: "s2 = dispatch x (if nameChange t1 then [OnPrefsChange ?i, OnNameChange ?i] else [OnPrefsChange ?i]) ?s1'"
    using r 1 by (simp add: release_def Let_def)
  have tr: "trace s2 = trace s @ prefsNotifications ?nc ?i (listeners s)"
    unfolding s2 dispatch_quiet(3)[OF k] prefsNotifications_concat using 1(4) f(6,7) by simp
  have nmc: "entityNameCache s2 = entityNameCache ?s1'"
    unfolding s2 by (rule dispatch_quiet(2)[OF k])
  have "entityNameCache ?s1' =
         (if ?nc \<and> name (commonprefs (preferences e)) \<noteq> name (commonprefs m)
          then nameCacheChange (name (commonprefs m)) (name (commonprefs (preferences e))) ?i (entityNameCache s)
          else entityNameCache s)"
    using 1(4) f(5,8) by auto
  then show ?thesis using 1(1,4) tr nmc by simp
qed


theorem prefs_commit_name_change_witness:
  "keepsListeners quietExt
   \<and> map_of (containerOf PLATFORM namedStore) 1 = Some trackedPlatform
   \<and> renamedPrefs \<noteq> preferences trackedPlatform \<and> hiddenPrefs \<noteq> preferences trackedPlatform
   \<and> nameChangeExpected (commonprefs (preferences trackedPlatform)) (commonprefs renamedPrefs)
   \<and> \<not> nameChangeExpected (commonprefs (preferences trackedPlatform)) (commonprefs hiddenPrefs)
   \<and> (\<exists>t t1 s1 t2 s2. mutablePrefs PLATFORM 1 namedStore = Some t
          \<and> commit quietExt (t\<lparr>scratch := ScratchPrefs renamedPrefs\<rparr>) namedStore = (t1, s1)
          \<and> release quietExt t1 s1 = (t2, s2)
          \<and> nameChange t1
          \<and> trace s2 = [(10, OnPrefsChange 1), (10, OnNameChange 1)]
          \<and> entityNameCache s2 = [(''f'', 1, PLATFORM)])
   \<and> (\<exists>t t1 s1 t2 s2. mutablePrefs PLATFORM 1 namedStore = Some t
          \<and> commit quietExt (t\<lparr>scratch := ScratchPrefs hiddenPrefs\<rparr>) namedStore = (t1, s1)
          \<and> release quietExt t1 s1 = (t2, s2)
          \<and> \<not> nameChange t1
          \<and> trace s2 = [(10, OnPrefsChange 1)]
          \<and> entityNameCache s2 = [(''e'', 1, PLATFORM)])"
proof -
  have e: "map_of (containerOf PLATFORM namedStore) 1 = Some trackedPlatform"
    by (simp add: containerOf_def namedStore_def trackStore_def)
  have p: "preferences trackedPlatform = plainPrefs" "pid (properties trackedPlatform) = 1"
    by (simp_all add: trackedPlatform_def mkEntry_def)
  have m: "renamedPrefs \<noteq> preferences trackedPlatform" "hiddenPrefs \<noteq> preferences trackedPlatform"
    by (simp_all add: p renamedPrefs_def hiddenPrefs_def plainPrefs_def)
  have n: "nameChangeExpected (commonprefs (preferences trackedPlatform)) (commonprefs renamedPrefs)"
    "\<not> nameChangeExpected (commonprefs (preferences trackedPlatform)) (commonprefs hiddenPrefs)"
    by (simp_all add: p nameChangeExpected_def renamedPrefs_def hiddenPrefs_def plainPrefs_def)
  have ls: "listeners namedStore = [10]" "trace namedStore = []"
    "entityNameCache namedStore = [(''e'', 1, PLATFORM)]"
    by (simp_all add: namedStore_def trackStore_def newStore_def)
  obtain t where t: "mutablePrefs PLATFORM 1 namedStore = Some t"
    using e by (simp add: mutablePrefs_def)
  obtain t1 s1 where c1: "commit quietExt (t\<lparr>scratch := ScratchPrefs renamedPrefs\<rparr>) namedStore = (t1, s1)"
    by (cases "commit quietExt (t\<lparr>scratch := ScratchPrefs renamedPrefs\<rparr>) namedStore")
  obtain t2 s2 where r1: "release quietExt t1 s1 = (t2, s2)" by (cases "release quietExt t1 s1")
  obtain u1 v1 where c2: "commit quietExt (t\<lparr>scratch := ScratchPrefs hiddenPrefs\<rparr>) namedStore = (u1, v1)"
    by (cases "commit quietExt (t\<lparr>scratch := ScratchPrefs hiddenPrefs\<rparr>) namedStore")
  obtain u2 v2 where r2: "release quietExt u1 v1 = (u2, v2)" by (cases "release quietExt u1 v1")
  note a = prefs_commit_name_change[OF keepsListeners_quietExt e m(1) t c1 r1]
  note b = prefs_commit_name_change[OF keepsListeners_quietExt e m(2) t c2 r2]
  have a': "nameChange t1" "trace s2 = [(10, OnPrefsChange 1), (10, OnNameChange 1)]"
    "entityNameCache s2 = [(''f'', 1, PLATFORM)]"
    using a n(1) by (simp_all add: ls p prefsNotifications_def nameCacheChange_def renamedPrefs_def plainPrefs_def)
  have b': "\<not> nameChange u1" "trace v2 = [(10, OnPrefsChange 1)]"
    "entityNameCache v2 = [(''e'', 1, PLATFORM)]"
    using b n(2) by (simp_all add: ls p prefsNotifications_def)
  have ea: "\<exists>t t1 s1 t2 s2. mutablePrefs PLATFORM 1 namedStore = Some t
          \<and> commit quietExt (t\<lparr>scratch := ScratchPrefs renamedPrefs\<rparr>) namedStore = (t1, s1)
          \<and> release quietExt t1 s1 = (t2, s2)
          \<and> nameChange t1
          \<and> trace s2 = [(10, OnPrefsChange 1), (10, OnNameChange 1)]
          \<and> entityNameCache s2 = [(''f'', 1, PLATFORM)]"
    using t c1 r1 a' by blast
  have eb: "\<exists>t t1 s1 t2 s2. mutablePrefs PLATFORM 1 namedStore = Some t
          \<and> commit quietExt (t\<lparr>scratch := ScratchPrefs hiddenPrefs\<rparr>) namedStore = (t1, s1)
          \<and> release quietExt t1 s1 = (t2, s2)
          \<and> \<not> nameChange t1
          \<and> trace s2 = [(10, OnPrefsChange 1)]
          \<and> entityNameCache s2 = [(''e'', 1, PLATFORM)]"
    using t c2 r2 b' by blast
  show ?thesis by (intro conjI keepsListeners_quietExt e m n ea eb)
qed

section \<open>Flushing a platform and what it hosts\<close>





















































end
